theory Spec2Isabelle
  imports Main "HOL-Library.Word"
begin

unbundle bit_operations_syntax

section \<open>Machine types of the ESP32 build\<close>

text \<open>
  The sketch is compiled for the ESP32 (ILP32): \<^verbatim>\<open>byte\<close> is 8 bits, \<^verbatim>\<open>uint16_t\<close>
  16 bits, \<^verbatim>\<open>unsigned int\<close> and \<^verbatim>\<open>unsigned long\<close> 32 bits. C's \<^verbatim>\<open>int\<close> values that
  the sketch computes with (hours, minutes, array indices) stay far inside 32 bits and are
  modelled as \<open>int\<close>.

  An array read outside the array's bounds has no value that the program determines
  (it reads whatever the linker placed there). Such a read is the value
  \<open>Inl OutOfBounds\<close>; a value computed from it is again \<open>Inl OutOfBounds\<close>.
\<close>

type_synonym byte = "8 word"
type_synonym u16 = "16 word"
type_synonym u32 = "32 word"

datatype error = OutOfBounds

definition array_read :: "'a list \<Rightarrow> int \<Rightarrow> error + 'a" where
  "array_read xs i = (if 0 \<le> i \<and> i < int (length xs) then Inr (xs ! nat i) else Inl OutOfBounds)"

section \<open>NixieTubeShield.h\<close>

subsection \<open>BCD conversion for the DS1307\<close>

text \<open>
  \<^verbatim>\<open>byte decToBcd(byte val) { return ( (val / 10 * 16) + (val % 10) ); }\<close>
  \<^verbatim>\<open>byte bcdToDec(byte val) { return ( (val / 16 * 10) + (val % 16) ); }\<close>
  The operand is promoted to \<^verbatim>\<open>int\<close>, and the result converted back to \<^verbatim>\<open>byte\<close>.
\<close>

definition decToBcd :: "byte \<Rightarrow> byte" where
  "decToBcd val = word_of_int ((uint val div 10 * 16) + (uint val mod 10))"

definition bcdToDec :: "byte \<Rightarrow> byte" where
  "bcdToDec val = word_of_int ((uint val div 16 * 10) + (uint val mod 16))"


subsection \<open>Digit data and the shield object\<close>

text \<open>
  \<^verbatim>\<open>#define DIGIT_BLANK 0xFF\<close>, \<^verbatim>\<open>#define BLANK_DIGIT 10\<close>, the two dot masks, the table
  \<^verbatim>\<open>unsigned int SymbolArray[10]\<close> and the table \<^verbatim>\<open>int NUMERIC_DIGITS[11]\<close>.
\<close>

definition DIGIT_BLANK :: int where
  "DIGIT_BLANK = 0xFF"

definition BLANK_DIGIT :: int where
  "BLANK_DIGIT = 10"

definition UpperDotsMask :: u32 where
  "UpperDotsMask = 0x80000000"

definition LowerDotsMask :: u32 where
  "LowerDotsMask = 0x40000000"

definition SymbolArray :: "u32 list" where
  "SymbolArray = [1, 2, 4, 8, 16, 32, 64, 128, 256, 512]"

definition NUMERIC_DIGITS :: "int list" where
  "NUMERIC_DIGITS = [0, 1, 2, 3, 4, 5, 6, 7, 8, 9, DIGIT_BLANK]"

text \<open>
  What the object does to its pins and buses, in order. \<open>SpiFrame\<close> is the sequence of
  the eight \<^verbatim>\<open>SPI.transfer\<close> bytes of one \<^verbatim>\<open>show()\<close>; \<open>LedColor\<close> is one call of
  \<^verbatim>\<open>setLEDColor(red, green, blue)\<close> (the gamma table and the PWM writes behind it are not
  modelled); \<open>DelayMs\<close> is one call of \<^verbatim>\<open>delay\<close>.
\<close>

datatype effect =
    HvPin bool
  | DotsPin bool
  | LatchPin bool
  | SpiFrame "error + byte list"
  | LedColor byte byte byte
  | DelayMs nat

text \<open>
  The object's fields: \<^verbatim>\<open>uint16_t digits[6]\<close> (index 0 is NX6, index 5 is NX1) as a
  function of the index, \<^verbatim>\<open>bool dotsEnabled\<close>, and the outputs performed so far.
\<close>

record shield =
  digits :: "nat \<Rightarrow> error + u16"
  dotsEnabled :: bool
  out :: "effect list"

definition bind_err :: "error + 'a \<Rightarrow> ('a \<Rightarrow> error + 'b) \<Rightarrow> error + 'b" where
  "bind_err m f = (case m of Inl e \<Rightarrow> Inl e | Inr x \<Rightarrow> f x)"

text \<open>The constructor: all six digit codes are \<^verbatim>\<open>DIGIT_BLANK\<close>, the dots are off.\<close>

definition NixieTubeShield :: shield where
  "NixieTubeShield =
     \<lparr>digits = (\<lambda>i. Inr (word_of_int DIGIT_BLANK)), dotsEnabled = False,
      out = [HvPin False, LatchPin False, DotsPin False]\<rparr>"

definition hvEnable :: "bool \<Rightarrow> shield \<Rightarrow> shield" where
  "hvEnable state s = s\<lparr>out := out s @ [HvPin state]\<rparr>"

definition dotsEnable :: "bool \<Rightarrow> shield \<Rightarrow> shield" where
  "dotsEnable state s = s\<lparr>dotsEnabled := state, out := out s @ [DotsPin state]\<rparr>"

definition delay :: "nat \<Rightarrow> shield \<Rightarrow> shield" where
  "delay ms s = s\<lparr>out := out s @ [DelayMs ms]\<rparr>"

text \<open>
  \<^verbatim>\<open>digits[k] = NUMERIC_DIGITS[d]\<close>: the table entry for the slot value \<open>d\<close>, an
  \<^verbatim>\<open>int\<close>, stored into a \<^verbatim>\<open>uint16_t\<close>.
\<close>

definition slot_code :: "int \<Rightarrow> error + u16" where
  "slot_code d = bind_err (array_read NUMERIC_DIGITS d) (\<lambda>c. Inr (word_of_int c))"

definition setDigit :: "nat \<Rightarrow> int \<Rightarrow> shield \<Rightarrow> shield" where
  "setDigit k d s = s\<lparr>digits := (digits s)(k := slot_code d)\<rparr>"

definition setNX1Digit :: "int \<Rightarrow> shield \<Rightarrow> shield" where
  "setNX1Digit d = setDigit 5 d"

definition setNX2Digit :: "int \<Rightarrow> shield \<Rightarrow> shield" where
  "setNX2Digit d = setDigit 4 d"

definition setNX3Digit :: "int \<Rightarrow> shield \<Rightarrow> shield" where
  "setNX3Digit d = setDigit 3 d"

definition setNX4Digit :: "int \<Rightarrow> shield \<Rightarrow> shield" where
  "setNX4Digit d = setDigit 2 d"

definition setNX5Digit :: "int \<Rightarrow> shield \<Rightarrow> shield" where
  "setNX5Digit d = setDigit 1 d"

definition setNX6Digit :: "int \<Rightarrow> shield \<Rightarrow> shield" where
  "setNX6Digit d = setDigit 0 d"

subsection \<open>show()\<close>

text \<open>\<^verbatim>\<open>SymbolArray[digits[i]]\<close>: the stored code is used as an index into the 10-entry table.\<close>

definition symbol :: "error + u16 \<Rightarrow> error + u32" where
  "symbol c = bind_err c (\<lambda>i. array_read SymbolArray (uint i))"

text \<open>
  \<^verbatim>\<open>if (dotsEnabled) Var32|=LowerDotsMask; else Var32&=~LowerDotsMask;\<close>
  \<^verbatim>\<open>if (dotsEnabled) Var32|=UpperDotsMask; else Var32&=~UpperDotsMask;\<close>
\<close>

definition dots_bits :: "bool \<Rightarrow> u32 \<Rightarrow> u32" where
  "dots_bits en v =
     (let v1 = (if en then v OR LowerDotsMask else v AND NOT LowerDotsMask)
      in (if en then v1 OR UpperDotsMask else v1 AND NOT UpperDotsMask))"

text \<open>
  One register: \<^verbatim>\<open>Var32=0; Var32|=a<<20; Var32|=b<<10; Var32|=c;\<close> and then the dots.
\<close>

definition reg_word :: "bool \<Rightarrow> u32 \<Rightarrow> u32 \<Rightarrow> u32 \<Rightarrow> u32" where
  "reg_word en a b c = dots_bits en (((0 OR push_bit 20 a) OR push_bit 10 b) OR c)"

definition reg_of :: "bool \<Rightarrow> error + u16 \<Rightarrow> error + u16 \<Rightarrow> error + u16 \<Rightarrow> error + u32" where
  "reg_of en x y z =
     bind_err (symbol x) (\<lambda>a. bind_err (symbol y) (\<lambda>b. bind_err (symbol z) (\<lambda>c.
       Inr (reg_word en a b c))))"

text \<open>
  \<^verbatim>\<open>SPI.transfer(Var32>>24); SPI.transfer(Var32>>16); SPI.transfer(Var32>>8); SPI.transfer(Var32);\<close>
  each argument truncated to a byte.
\<close>

definition spi_bytes :: "u32 \<Rightarrow> byte list" where
  "spi_bytes v = [ucast (drop_bit 24 v), ucast (drop_bit 16 v), ucast (drop_bit 8 v), ucast v]"

text \<open>REG 1 is built from \<^verbatim>\<open>digits[0..2]\<close> and sent first, REG 0 from \<^verbatim>\<open>digits[3..5]\<close>.\<close>

definition registers :: "shield \<Rightarrow> error + (u32 \<times> u32)" where
  "registers s =
     bind_err (reg_of (dotsEnabled s) (digits s 0) (digits s 1) (digits s 2)) (\<lambda>r1.
     bind_err (reg_of (dotsEnabled s) (digits s 3) (digits s 4) (digits s 5)) (\<lambda>r0.
       Inr (r1, r0)))"

definition frame :: "shield \<Rightarrow> error + byte list" where
  "frame s = bind_err (registers s) (\<lambda>(r1, r0). Inr (spi_bytes r1 @ spi_bytes r0))"

definition show_shield :: "shield \<Rightarrow> shield" where
  "show_shield s = s\<lparr>out := out s @ [LatchPin False, SpiFrame (frame s), LatchPin True]\<rparr>"


subsection \<open>LEDControl.h\<close>

text \<open>C's \<^verbatim>\<open>/\<close> and \<^verbatim>\<open>%\<close> on \<^verbatim>\<open>int\<close> truncate towards zero.\<close>

definition c_div :: "int \<Rightarrow> int \<Rightarrow> int" where
  "c_div a b = sgn a * sgn b * (\<bar>a\<bar> div \<bar>b\<bar>)"

definition c_rem :: "int \<Rightarrow> int \<Rightarrow> int" where
  "c_rem a b = a - b * c_div a b"

record RGB24 =
  red :: byte
  green :: byte
  blue :: byte

definition RGB24_black :: RGB24 where
  "RGB24_black = \<lparr>red = 0, green = 0, blue = 0\<rparr>"

definition RGB24_blue :: RGB24 where
  "RGB24_blue = \<lparr>red = 0, green = 0, blue = 127\<rparr>"

definition RGB24_red :: RGB24 where
  "RGB24_red = \<lparr>red = 127, green = 0, blue = 0\<rparr>"

definition colorWheel :: "int \<Rightarrow> RGB24" where
  "colorWheel wheelPos0 =
     (let wheelPos = c_rem wheelPos0 256 in
      if wheelPos < 85 then
        \<lparr>red = word_of_int (255 - wheelPos * 3), green = word_of_int (wheelPos * 3), blue = 0\<rparr>
      else if wheelPos < 170 then
        (let wheelPos = wheelPos - 85 in
         \<lparr>red = 0, green = word_of_int (255 - wheelPos * 3), blue = word_of_int (wheelPos * 3)\<rparr>)
      else
        (let wheelPos = wheelPos - 170 in
         \<lparr>red = word_of_int (wheelPos * 3), green = 0, blue = word_of_int (255 - wheelPos * 3)\<rparr>))"

definition setLEDColor3 :: "byte \<Rightarrow> byte \<Rightarrow> byte \<Rightarrow> shield \<Rightarrow> shield" where
  "setLEDColor3 r g b s = s\<lparr>out := out s @ [LedColor r g b]\<rparr>"

definition setLEDColor :: "RGB24 \<Rightarrow> shield \<Rightarrow> shield" where
  "setLEDColor color = setLEDColor3 (red color) (green color) (blue color)"

subsection \<open>doAntiPoisoning()\<close>

text \<open>
  The body of the inner loop, for one value of \<^verbatim>\<open>i\<close>; the local \<^verbatim>\<open>dots\<close> is carried
  along with the object.
\<close>

definition antiPoisoning_step :: "nat \<Rightarrow> bool \<times> shield \<Rightarrow> bool \<times> shield" where
  "antiPoisoning_step i ds =
     (let dots = fst ds; s = snd ds;
          s = setNX1Digit (int i) s;
          s = setNX2Digit (int i) s;
          s = setNX3Digit (int i) s;
          s = setNX4Digit (int i) s;
          s = setNX5Digit (int i) s;
          s = setNX6Digit (int i) s;
          s = show_shield s;
          s = delay 500 s;
          s = setLEDColor3 (if i mod 3 = 0 then 255 else 0) (if i mod 3 = 1 then 255 else 0)
                (if i mod 3 = 2 then 255 else 0) s;
          dots = (\<not> dots);
          s = dotsEnable dots s
      in (dots, s))"

text \<open>\<^verbatim>\<open>for (j = 0; j < 4; j++) for (i = 0; i < 11; i++) ...\<close>\<close>

definition doAntiPoisoning :: "shield \<Rightarrow> shield" where
  "doAntiPoisoning s =
     snd (fold (\<lambda>j. fold antiPoisoning_step [0..<11]) [0..<4] (False, dotsEnable False s))"

subsection \<open>The DS1307 registers\<close>

text \<open>The fields of TimeLib's \<^verbatim>\<open>tmElements_t\<close> that the shield reads and writes.\<close>

record tmElements =
  Second :: byte
  Minute :: byte
  Hour :: byte
  Wday :: byte
  Day :: byte
  Month :: byte
  Year :: byte

text \<open>
  \<^verbatim>\<open>Wire.read()\<close> on the bytes that the device returned to \<^verbatim>\<open>requestFrom\<close>: the next
  byte, or \<open>-1\<close> (as a byte, \<open>0xFF\<close>) when none is left.
\<close>

definition wire_read :: "byte list \<Rightarrow> nat \<Rightarrow> byte" where
  "wire_read rs k = (if k < length rs then rs ! k else 0xFF)"

definition getRTCTime :: "byte list \<Rightarrow> tmElements" where
  "getRTCTime rs =
     \<lparr>Second = bcdToDec (wire_read rs 0),
      Minute = bcdToDec (wire_read rs 1),
      Hour = bcdToDec (wire_read rs 2 AND 0b111111),
      Wday = bcdToDec (wire_read rs 3),
      Day = bcdToDec (wire_read rs 4),
      Month = bcdToDec (wire_read rs 5),
      Year = bcdToDec (wire_read rs 6)\<rparr>"

text \<open>The bytes of the one \<^verbatim>\<open>Wire\<close> transmission that \<^verbatim>\<open>setRTCDateTime\<close> sends.\<close>

definition setRTCDateTime :: "tmElements \<Rightarrow> byte list" where
  "setRTCDateTime m =
     [0x00, decToBcd (Second m), decToBcd (Minute m), decToBcd (Hour m), decToBcd (Wday m),
      decToBcd (Day m), decToBcd (Month m), decToBcd (Year m), 0x00]"


section \<open>The sketch: updateDisplay()\<close>

text \<open>
  The user configuration macros, as a record, so that both settings of each can be stated.
  \<open>wheelPos\<close> stands for the conversion to \<^verbatim>\<open>int\<close> of the single-precision product
  \<^verbatim>\<open>colorInc * now_hour\<close>; floating point is not modelled, and no property below
  depends on it.
\<close>

record config =
  HOUR_FORMAT_12 :: bool
  CLOCK_OFF_HOUR :: int
  CLOCK_ON_HOUR :: int
  SUPPRESS_LEADING_ZEROS :: bool
  wheelPos :: "int \<Rightarrow> int"

text \<open>The values in the sketch: 12-hour format, off at 23, on at 07, zeros suppressed.\<close>

definition sketch_config :: "(int \<Rightarrow> int) \<Rightarrow> config" where
  "sketch_config w =
     \<lparr>HOUR_FORMAT_12 = True, CLOCK_OFF_HOUR = 23, CLOCK_ON_HOUR = 7,
      SUPPRESS_LEADING_ZEROS = True, wheelPos = w\<rparr>"

text \<open>
  What TimeLib's \<^verbatim>\<open>hour\<close>, \<^verbatim>\<open>minute\<close>, \<^verbatim>\<open>second\<close>, \<^verbatim>\<open>day\<close>, \<^verbatim>\<open>month\<close> and
  \<^verbatim>\<open>year\<close> return for \<^verbatim>\<open>localTime\<close>.
\<close>

record local_time =
  hour :: int
  minute :: int
  second :: int
  day :: int
  month :: int
  year :: int

text \<open>TimeLib's \<^verbatim>\<open>hourFormat12\<close>: 0 is shown as 12, 13..23 as 1..11.\<close>

definition hourFormat12 :: "local_time \<Rightarrow> int" where
  "hourFormat12 t = (if hour t = 0 then 12 else if hour t > 12 then hour t - 12 else hour t)"

text \<open>
  The sketch's globals \<^verbatim>\<open>previousMinute\<close>, \<^verbatim>\<open>minutes\<close>, \<^verbatim>\<open>dotToggle\<close>, \<^verbatim>\<open>clockOn\<close> and
  the object \<^verbatim>\<open>SHIELD\<close>.
\<close>

record clock =
  previousMinute :: int
  minutes :: int
  dotToggle :: bool
  clockOn :: bool
  SHIELD :: shield

text \<open>The initialisers of the globals; \<open>s\<close> is the shield as \<^verbatim>\<open>setup()\<close> leaves it.\<close>

definition initial_clock :: "shield \<Rightarrow> clock" where
  "initial_clock s =
     \<lparr>previousMinute = 0, minutes = 0, dotToggle = False, clockOn = True, SHIELD = s\<rparr>"

datatype program = ShowTime | ShowDate | RainbowSweep | AntiPoisoningSweep | PoweredOff

text \<open>The \<^verbatim>\<open>else\<close> branch of the hour test: the orderly shutdown, once.\<close>

definition off_event :: "clock \<Rightarrow> clock" where
  "off_event st =
     (if clockOn st then
        (let s = SHIELD st;
             s = hvEnable False s;
             s = dotsEnable False s;
             s = setNX1Digit BLANK_DIGIT s;
             s = setNX2Digit BLANK_DIGIT s;
             s = setNX3Digit BLANK_DIGIT s;
             s = setNX4Digit BLANK_DIGIT s;
             s = setNX5Digit BLANK_DIGIT s;
             s = setNX6Digit BLANK_DIGIT s;
             s = show_shield s;
             s = setLEDColor RGB24_black s
         in st\<lparr>clockOn := False, SHIELD := s\<rparr>)
      else st)"

text \<open>The 60 minute event.\<close>

definition antiPoisoning_event :: "clock \<Rightarrow> clock" where
  "antiPoisoning_event st =
     (let st = st\<lparr>previousMinute := minutes st\<rparr>;
          s = SHIELD st;
          s = setLEDColor RGB24_red s;
          s = doAntiPoisoning s
      in st\<lparr>SHIELD := s\<rparr>)"

text \<open>
  The 15 minute event. The colour loop is
  \<^verbatim>\<open>for (cycles = 0; cycles < 4; cycles++) for (cycle = 0; cycle < 256; cycle += 16)\<close>.
\<close>

definition rainbow_step :: "nat \<Rightarrow> shield \<Rightarrow> shield" where
  "rainbow_step k s = delay 400 (setLEDColor (colorWheel (int (16 * k))) s)"

definition rainbow_event :: "clock \<Rightarrow> clock" where
  "rainbow_event st =
     (let st = st\<lparr>previousMinute := minutes st\<rparr>;
          s = SHIELD st;
          s = dotsEnable False s;
          s = setNX1Digit BLANK_DIGIT s;
          s = setNX2Digit BLANK_DIGIT s;
          s = setNX3Digit BLANK_DIGIT s;
          s = setNX4Digit BLANK_DIGIT s;
          s = setNX5Digit BLANK_DIGIT s;
          s = setNX6Digit BLANK_DIGIT s;
          s = show_shield s;
          s = fold (\<lambda>cycles. fold rainbow_step [0..<16]) [0..<4] s
      in st\<lparr>SHIELD := s\<rparr>)"

text \<open>The 10 minute event: month, day and two-digit year.\<close>

definition date_event :: "config \<Rightarrow> local_time \<Rightarrow> clock \<Rightarrow> clock" where
  "date_event cfg localTime st =
     (let st = st\<lparr>previousMinute := minutes st\<rparr>;
          s = SHIELD st;
          s = dotsEnable False s;
          s = setLEDColor RGB24_blue s;
          s = dotsEnable True s;
          now_mon = month localTime;
          s = (if now_mon \<ge> 10 then setNX1Digit (c_div now_mon 10) s
               else if SUPPRESS_LEADING_ZEROS cfg then setNX1Digit BLANK_DIGIT s
               else setNX1Digit 0 s);
          s = setNX2Digit (c_rem now_mon 10) s;
          now_day = day localTime;
          s = (if now_day \<ge> 10 then setNX3Digit (c_div now_day 10) s
               else if SUPPRESS_LEADING_ZEROS cfg then setNX3Digit BLANK_DIGIT s
               else setNX3Digit 0 s);
          s = setNX4Digit (c_rem now_day 10) s;
          now_year = year localTime - 2000;
          s = (if now_year \<ge> 10 then setNX5Digit (c_div now_year 10) s
               else if SUPPRESS_LEADING_ZEROS cfg then setNX5Digit BLANK_DIGIT s
               else setNX5Digit 0 s);
          s = setNX6Digit (c_rem now_year 10) s;
          s = show_shield s;
          s = delay 10000 s
      in st\<lparr>SHIELD := s\<rparr>)"

text \<open>The last branch: the time.\<close>

definition time_event :: "config \<Rightarrow> local_time \<Rightarrow> clock \<Rightarrow> clock" where
  "time_event cfg localTime st =
     (let s = SHIELD st;
          (toggle, s) = (if dotToggle st then (False, dotsEnable True s)
                         else (True, dotsEnable False s));
          now_hour = (if HOUR_FORMAT_12 cfg then hourFormat12 localTime else hour localTime);
          s = setLEDColor (colorWheel (wheelPos cfg now_hour)) s;
          s = (if now_hour \<ge> 10 then setNX1Digit (c_div now_hour 10) s
               else if SUPPRESS_LEADING_ZEROS cfg then setNX1Digit BLANK_DIGIT s
               else setNX1Digit 0 s);
          s = setNX2Digit (c_rem now_hour 10) s;
          now_min = minute localTime;
          s = setNX3Digit (c_div now_min 10) s;
          s = setNX4Digit (c_rem now_min 10) s;
          now_sec = second localTime;
          s = setNX5Digit (c_div now_sec 10) s;
          s = setNX6Digit (c_rem now_sec 10) s;
          s = show_shield s
      in st\<lparr>dotToggle := toggle, SHIELD := s\<rparr>)"

text \<open>
  \<^verbatim>\<open>updateDisplay\<close>, called once a second. The result names the branch that ran, next
  to the new values of the globals.
\<close>

definition updateDisplay :: "config \<Rightarrow> local_time \<Rightarrow> clock \<Rightarrow> program \<times> clock" where
  "updateDisplay cfg localTime st0 =
     (let hr = hour localTime in
      if hr \<ge> CLOCK_ON_HOUR cfg \<and> hr < CLOCK_OFF_HOUR cfg then
        (let st = (if \<not> clockOn st0
                   then st0\<lparr>clockOn := True, SHIELD := hvEnable True (SHIELD st0)\<rparr>
                   else st0);
             st = st\<lparr>minutes := minute localTime\<rparr>
         in if minutes st \<noteq> previousMinute st \<and> minutes st = 0 then
              (AntiPoisoningSweep, antiPoisoning_event st)
            else if minutes st \<noteq> previousMinute st \<and> minutes st \<noteq> 0
                    \<and> c_rem (minutes st) 15 = 0 then
              (RainbowSweep, rainbow_event st)
            else if minutes st \<noteq> previousMinute st \<and> minutes st \<noteq> 0
                    \<and> c_rem (minutes st) 10 = 0 then
              (ShowDate, date_event cfg localTime st)
            else
              (ShowTime, time_event cfg localTime st))
      else (PoweredOff, off_event st0))"

text \<open>A run of ticks: the branches taken, in order, and the globals at the end.\<close>

fun run :: "config \<Rightarrow> local_time list \<Rightarrow> clock \<Rightarrow> program list \<times> clock" where
  "run cfg [] st = ([], st)"
| "run cfg (t # ts) st =
     (let (p, st1) = updateDisplay cfg t st;
          (ps, st2) = run cfg ts st1
      in (p # ps, st2))"


section \<open>NTP.h\<close>

definition NTP_PACKET_SIZE :: nat where
  "NTP_PACKET_SIZE = 48"

definition RETRIES :: nat where
  "RETRIES = 20"

text \<open>
  What the class exchanges with the network, the DS1307 and the timer, in order:
  one request packet sent, one \<^verbatim>\<open>delay\<close>, one \<^verbatim>\<open>setRTCDateTime\<close> transmission,
  one \<^verbatim>\<open>getRTCTime\<close> read.
\<close>

datatype io = UdpSend "byte list" | Pause nat | RtcWrite "byte list" | RtcRead

text \<open>
  The surroundings of one call of \<^verbatim>\<open>getTime()\<close>: the packet that \<^verbatim>\<open>udp.parsePacket()\<close>
  finds after the \<open>i\<close>-th request (\<open>None\<close> when there is none), the register bytes that
  the DS1307 returns to the \<open>k\<close>-th read, the value of the \<open>k\<close>-th call of \<^verbatim>\<open>millis()\<close>,
  and TimeLib's \<^verbatim>\<open>breakTime\<close> and \<^verbatim>\<open>makeTime\<close>. A \<^verbatim>\<open>time_t\<close> is the 32-bit value that
  the \<^verbatim>\<open>unsigned long\<close> expressions of the class compute.
\<close>

record env =
  replies :: "nat \<Rightarrow> byte list option"
  rtc_regs :: "nat \<Rightarrow> byte list"
  millis :: "nat \<Rightarrow> u32"
  breakTime :: "u32 \<Rightarrow> tmElements"
  makeTime :: "tmElements \<Rightarrow> u32"

text \<open>The request: 48 zero bytes with eight header bytes set.\<close>

definition request_packet :: "byte list" where
  "request_packet =
     (replicate NTP_PACKET_SIZE 0)
       [0 := 0xE3, 2 := 0x06, 3 := 0xEC, 12 := 0x31, 13 := 0x4E, 14 := 0x31, 15 := 0x34]"

text \<open>
  \<^verbatim>\<open>secsSince1900 = (unsigned long) packetBuffer[40] << 24;\<close> and three \<^verbatim>\<open>|=\<close> for the
  bytes 41, 42 and 43.
\<close>

definition secsSince1900 :: "byte list \<Rightarrow> u32" where
  "secsSince1900 packetBuffer =
     (let v = push_bit 24 (ucast (packetBuffer ! 40) :: u32);
          v = v OR push_bit 16 (ucast (packetBuffer ! 41));
          v = v OR push_bit 8 (ucast (packetBuffer ! 42));
          v = v OR ucast (packetBuffer ! 43)
      in v)"

text \<open>
  \<^verbatim>\<open>_getTime()\<close>, as a function of the reply: the packet is read only when its size is
  \<^verbatim>\<open>NTP_PACKET_SIZE\<close>, so the four reads at 40..43 are inside the buffer.
\<close>

definition priv_getTime :: "byte list option \<Rightarrow> u32" where
  "priv_getTime reply =
     (case reply of
        None \<Rightarrow> 0
      | Some packet \<Rightarrow>
          if length packet = NTP_PACKET_SIZE then secsSince1900 packet - 2208988800 else 0)"

text \<open>
  The retry loop of \<^verbatim>\<open>getTime()\<close>: it returns from inside the loop on the first result
  that is not 0, after writing the DS1307, or falls through after \<^verbatim>\<open>RETRIES\<close> rounds.
\<close>

datatype loop_exit = Returned u32 "io list" | FellThrough "io list"

function ntp_loop :: "env \<Rightarrow> nat \<Rightarrow> io list \<Rightarrow> loop_exit" where
  "ntp_loop e i tr =
     (if i < RETRIES then
        (let result = priv_getTime (replies e i);
             tr = tr @ [UdpSend request_packet, Pause 1000]
         in if result \<noteq> 0 then
              Returned result (tr @ [RtcWrite (setRTCDateTime (breakTime e result))])
            else ntp_loop e (i + 1) (tr @ [Pause 300]))
      else FellThrough tr)"
  by pat_completeness auto
termination
  by (relation "measure (\<lambda>(e, i, tr). RETRIES - i)") auto

declare ntp_loop.simps [simp del]

text \<open>
  The polling loop of \<^verbatim>\<open>_getRTCTime()\<close>,
  \<^verbatim>\<open>while (prevSeconds == m.Second) { getRTCTime(m); if (millis() - start > 3000) {...; break;} }\<close>.
  It ends when the surroundings let it; \<open>None\<close> is a loop that never ends. The result
  carries \<^verbatim>\<open>isRTCAvailable\<close>.
\<close>

partial_function (option) rtc_poll ::
  "env \<Rightarrow> byte \<Rightarrow> u32 \<Rightarrow> nat \<Rightarrow> tmElements \<Rightarrow> io list \<Rightarrow> (bool \<times> tmElements \<times> io list) option"
where
  "rtc_poll e prevSeconds start k m tr =
     (if prevSeconds = Second m then
        (let m1 = getRTCTime (rtc_regs e k);
             tr1 = tr @ [RtcRead]
         in if millis e k - start > 3000 then Some (False, m1, tr1)
            else rtc_poll e prevSeconds start (k + 1) m1 tr1)
      else Some (True, m, tr))"

declare rtc_poll.simps [code]

record time_result =
  ret :: u32
  performed :: "io list"

definition priv_getRTCTime :: "env \<Rightarrow> io list \<Rightarrow> time_result option" where
  "priv_getRTCTime e tr =
     (let m = getRTCTime (rtc_regs e 0);
          tr = tr @ [RtcRead];
          prevSeconds = Second m;
          RTC_ReadingStartTime = millis e 0
      in case rtc_poll e prevSeconds RTC_ReadingStartTime 1 m tr of
           None \<Rightarrow> None
         | Some (isRTCAvailable, m, tr) \<Rightarrow>
             Some \<lparr>ret = (if isRTCAvailable then makeTime e m else 0), performed = tr\<rparr>)"

definition getTime :: "env \<Rightarrow> time_result option" where
  "getTime e =
     (case ntp_loop e 0 [] of
        Returned result tr \<Rightarrow> Some \<lparr>ret = result, performed = tr\<rparr>
      | FellThrough tr \<Rightarrow> priv_getRTCTime e tr)"

text \<open>
  Modelled from the spec: the caller of the time provider (TimeLib's \<^verbatim>\<open>now()\<close>, which is
  not among the sources). The spec has it retain the last known WallClock when the
  provider signals "no time available" with the zero result; a result that is not zero
  becomes the WallClock.
\<close>

definition sync_WallClock :: "u32 \<Rightarrow> u32 \<Rightarrow> u32" where
  "sync_WallClock prior t = (if t \<noteq> 0 then t else prior)"

text \<open>Counting in a trace.\<close>

definition udp_queries :: "io list \<Rightarrow> nat" where
  "udp_queries tr = length (filter (\<lambda>x. case x of UdpSend p \<Rightarrow> True | _ \<Rightarrow> False) tr)"

definition rtc_writes :: "io list \<Rightarrow> byte list list" where
  "rtc_writes tr = concat (map (\<lambda>x. case x of RtcWrite bs \<Rightarrow> [bs] | _ \<Rightarrow> []) tr)"

definition rtc_reads :: "io list \<Rightarrow> nat" where
  "rtc_reads tr = length (filter (\<lambda>x. case x of RtcRead \<Rightarrow> True | _ \<Rightarrow> False) tr)"

section \<open>Notions used to state the properties\<close>

text \<open>
  The 10-bit field that \<^verbatim>\<open>show()\<close> takes from \<^verbatim>\<open>SymbolArray\<close> for a slot that
  \<^verbatim>\<open>setNXnDigit\<close> has set to the value \<open>v\<close>.
\<close>

definition digit_field :: "int \<Rightarrow> error + u32" where
  "digit_field v = symbol (slot_code v)"

text \<open>The hour test of \<^verbatim>\<open>updateDisplay\<close>.\<close>

definition on_window :: "config \<Rightarrow> local_time \<Rightarrow> bool" where
  "on_window cfg t = (hour t \<ge> CLOCK_ON_HOUR cfg \<and> hour t < CLOCK_OFF_HOUR cfg)"

text \<open>The priority order of the dispatch, on the minute and the remembered minute.\<close>

definition selected :: "int \<Rightarrow> int \<Rightarrow> program" where
  "selected m prev =
     (if m \<noteq> prev \<and> m = 0 then AntiPoisoningSweep
      else if m \<noteq> prev \<and> m \<noteq> 0 \<and> 15 dvd m then RainbowSweep
      else if m \<noteq> prev \<and> m \<noteq> 0 \<and> 10 dvd m then ShowDate
      else ShowTime)"

text \<open>The hour that the time display shows.\<close>

definition shown_hour :: "config \<Rightarrow> local_time \<Rightarrow> int" where
  "shown_hour cfg t = (if HOUR_FORMAT_12 cfg then hourFormat12 t else hour t)"

text \<open>
  A slot shows the digit \<open>d\<close>: it holds the code of \<open>d\<close>, which is not the blank code.
  A tens slot of the field value \<open>x\<close>: blank when the tens digit is 0 and zeros are
  suppressed, the tens digit otherwise.
\<close>

definition shows_digit :: "error + u16 \<Rightarrow> int \<Rightarrow> bool" where
  "shows_digit c d = (0 \<le> d \<and> d \<le> 9 \<and> c = slot_code d \<and> c \<noteq> slot_code BLANK_DIGIT)"

definition shows_tens :: "bool \<Rightarrow> error + u16 \<Rightarrow> int \<Rightarrow> bool" where
  "shows_tens suppress c x =
     (if x div 10 = 0 \<and> suppress then c = slot_code BLANK_DIGIT else shows_digit c (x div 10))"

text \<open>The ranges of the fields of a local time from 2000 to 2099.\<close>

definition valid_time :: "local_time \<Rightarrow> bool" where
  "valid_time t =
     (0 \<le> hour t \<and> hour t \<le> 23 \<and> 0 \<le> minute t \<and> minute t \<le> 59
      \<and> 0 \<le> second t \<and> second t \<le> 59 \<and> 1 \<le> day t \<and> day t \<le> 31
      \<and> 1 \<le> month t \<and> month t \<le> 12 \<and> 2000 \<le> year t \<and> year t \<le> 2099)"

text \<open>
  Loading six slot values (NX1 first) and the indicator flag through the object's
  methods.
\<close>

definition load :: "int \<Rightarrow> int \<Rightarrow> int \<Rightarrow> int \<Rightarrow> int \<Rightarrow> int \<Rightarrow> bool \<Rightarrow> shield \<Rightarrow> shield" where
  "load d1 d2 d3 d4 d5 d6 en s =
     setNX6Digit d6 (setNX5Digit d5 (setNX4Digit d4 (setNX3Digit d3 (setNX2Digit d2
       (setNX1Digit d1 (dotsEnable en s))))))"

text \<open>
  Reading a frame back by inspection: four bytes, most significant first, make a word;
  a 10-bit field of a word at an offset; the digit whose single bit a field holds; and
  the six slot values NX1..NX6 with the two dot bits (31 and 30) of the eight bytes.
\<close>

definition be_word :: "byte list \<Rightarrow> u32" where
  "be_word bs =
     push_bit 24 (ucast (bs ! 0)) OR push_bit 16 (ucast (bs ! 1)) OR push_bit 8 (ucast (bs ! 2))
       OR ucast (bs ! 3)"

definition field :: "nat \<Rightarrow> u32 \<Rightarrow> u32" where
  "field off w = take_bit 10 (drop_bit off w)"

definition digit_of_field :: "u32 \<Rightarrow> int option" where
  "digit_of_field f = map_option int (find (\<lambda>v. f = 2 ^ v) [0..<10])"

definition inspect :: "byte list \<Rightarrow> int option list \<times> bool \<times> bool" where
  "inspect bs =
     (let r1 = be_word (take 4 bs); r0 = be_word (take 4 (drop 4 bs))
      in ([digit_of_field (field 0 r0), digit_of_field (field 10 r0),
           digit_of_field (field 20 r0), digit_of_field (field 0 r1),
           digit_of_field (field 10 r1), digit_of_field (field 20 r1)],
          bit r1 31 \<and> bit r0 31, bit r1 30 \<and> bit r0 30))"

text \<open>
  The big-endian value of the reply bytes 40..43, as a number; the trace of one failed
  round of the retry loop; and a reply that is absent or has the wrong size.
\<close>

definition seconds_1900 :: "byte list \<Rightarrow> int" where
  "seconds_1900 p =
     uint (p ! 40) * 2 ^ 24 + uint (p ! 41) * 2 ^ 16 + uint (p ! 42) * 2 ^ 8 + uint (p ! 43)"

definition failed_round :: "io list" where
  "failed_round = [UdpSend request_packet, Pause 1000, Pause 300]"

definition no_reply :: "byte list option \<Rightarrow> bool" where
  "no_reply r = (case r of None \<Rightarrow> True | Some p \<Rightarrow> length p \<noteq> NTP_PACKET_SIZE)"

text \<open>
  A broken-down time whose fields are in the ranges of a clock time (TimeLib counts the
  weekday from 1 and the year from 1970).
\<close>

definition fits_rtc :: "tmElements \<Rightarrow> bool" where
  "fits_rtc m =
     (Second m \<le> 59 \<and> Minute m \<le> 59 \<and> Hour m \<le> 23 \<and> Wday m \<le> 7 \<and> Day m \<le> 31
      \<and> Month m \<le> 12 \<and> Year m \<le> 99)"

section \<open>Properties\<close>

subsection \<open>BCD\<close>

lemma uint_byte_of_int:
  fixes k :: int
  assumes "0 \<le> k" "k < 256"
  shows "uint (word_of_int k :: byte) = k"
  using assms by (simp only: uint_word_of_int take_bit_eq_mod) simp

lemma uint_decToBcd:
  assumes "d \<le> 99"
  shows "uint (decToBcd d) = (uint d div 10) * 16 + uint d mod 10"
proof -
  from assms have le: "uint d \<le> 99"
    by (simp add: word_le_def)
  have ge: "0 \<le> uint d"
    by simp
  from le ge have "(uint d div 10) * 16 + uint d mod 10 < 256"
    by presburger
  moreover from ge have "0 \<le> (uint d div 10) * 16 + uint d mod 10"
    by presburger
  ultimately show ?thesis
    unfolding decToBcd_def
    by (rule uint_byte_of_int [rotated])
qed
lemma bcd_arith:
  fixes n :: int
  assumes "0 \<le> n" "n \<le> 99"
  shows "((n div 10 * 16 + n mod 10) div 16) * 10 + (n div 10 * 16 + n mod 10) mod 16 = n"
proof -
  define q where "q = n div 10"
  define r where "r = n mod 10"
  have r: "0 \<le> r" "r < 16"
    by (simp_all add: r_def)
  have d: "(q * 16 + r) div 16 = q"
    using r by simp
  have m: "(q * 16 + r) mod 16 = r"
    using r by simp
  have "q * 10 + r = n"
    by (simp add: q_def r_def)
  then show ?thesis
    unfolding q_def [symmetric] r_def [symmetric] d m .
qed

lemma bcdToDec_decToBcd:
  assumes "d \<le> 99"
  shows "bcdToDec (decToBcd d) = d"
proof -
  from assms have le: "uint d \<le> 99"
    by (simp add: word_le_def)
  have ge: "0 \<le> uint d"
    by simp
  have enc: "uint (decToBcd d) = (uint d div 10) * 16 + uint d mod 10"
    using assms by (rule uint_decToBcd)
  have "bcdToDec (decToBcd d) = word_of_int (uint d)"
    unfolding bcdToDec_def enc by (simp only: bcd_arith [OF ge le])
  then show ?thesis
    by simp
qed

lemma decToBcd_hour_mask:
  assumes "h \<le> 23"
  shows "decToBcd h AND 0b111111 = decToBcd h"
proof -
  from assms have le: "uint h \<le> 23"
    by (simp add: word_le_def)
  have ge: "0 \<le> uint h"
    by simp
  have "h \<le> 99"
    using assms by (rule order_trans) simp
  then have enc: "uint (decToBcd h) = (uint h div 10) * 16 + uint h mod 10"
    by (rule uint_decToBcd)
  have "uint h div 10 \<le> 2"
    using le by simp
  moreover have "uint h mod 10 \<le> 9"
    by simp
  ultimately have "uint (decToBcd h) < 64"
    unfolding enc by linarith
  then have "decToBcd h < 2 ^ 6"
    by (simp add: word_less_def)
  then have "decToBcd h AND mask 6 = decToBcd h"
    by (rule less_mask_eq)
  then show ?thesis
    by (simp add: mask_eq_exp_minus_1)
qed

text \<open>
  Claim C9. For every decimal value \<open>d\<close> in 0..99, \<open>decToBcd d\<close> is
  \<open>(d / 10) * 16 + d % 10\<close>, and \<open>bcdToDec\<close> inverts it:
  \<open>bcdToDec (decToBcd d) = d\<close>. The conversions are the same functions for each of the
  seven clock fields.
\<close>

theorem C9_bcd_roundtrip:
  assumes "d \<le> 99"
  shows "uint (decToBcd d) = (uint d div 10) * 16 + uint d mod 10
       \<and> bcdToDec (decToBcd d) = d"
proof -
  from assms have le: "uint d \<le> 99"
    by (simp add: word_le_def)
  have ge: "0 \<le> uint d"
    by simp
  have enc: "uint (decToBcd d) = (uint d div 10) * 16 + uint d mod 10"
    using assms by (rule uint_decToBcd)
  have "bcdToDec (decToBcd d) = word_of_int (uint d)"
    unfolding bcdToDec_def enc by (simp only: bcd_arith [OF ge le])
  then show ?thesis
    using enc by simp
qed

theorem C9_bcd_roundtrip_witness:
  "(59 :: byte) \<le> 99 \<and> uint (decToBcd 59) = 89 \<and> bcdToDec (decToBcd 59) = 59"
  using C9_bcd_roundtrip [of 59] by simp

subsection \<open>Digit codes\<close>

lemma small_cases:
  fixes v :: int
  assumes "0 \<le> v" "v \<le> 9"
  shows "v = 0 \<or> v = 1 \<or> v = 2 \<or> v = 3 \<or> v = 4 \<or> v = 5 \<or> v = 6 \<or> v = 7 \<or> v = 8 \<or> v = 9"
  using assms by arith

lemma slot_code_digit:
  assumes "0 \<le> v" "v \<le> 9"
  shows "slot_code v = Inr (word_of_int v)"
  using small_cases [OF assms]
  by (auto simp: slot_code_def array_read_def NUMERIC_DIGITS_def bind_err_def)

lemma slot_code_blank: "slot_code BLANK_DIGIT = Inr 0xFF"
  by (simp add: slot_code_def array_read_def NUMERIC_DIGITS_def bind_err_def BLANK_DIGIT_def
      DIGIT_BLANK_def)

lemma digit_not_blank:
  assumes "0 \<le> v" "v \<le> 9"
  shows "slot_code v \<noteq> slot_code BLANK_DIGIT"
  using small_cases [OF assms]
  by (auto simp: slot_code_blank slot_code_digit)

text \<open>
  The part of claim C1 about the digits: for every slot value \<open>v\<close> in 0..9 the field is
  \<open>1 << v\<close>, below \<open>2 ^ 10\<close>, with the one bit \<open>v\<close> set.
\<close>

lemma digit_field_digit:
  assumes "0 \<le> v" "v \<le> 9"
  shows "digit_field v = Inr (2 ^ nat v)"
  using small_cases [OF assms]
  by (auto simp: digit_field_def symbol_def slot_code_def array_read_def NUMERIC_DIGITS_def
      SymbolArray_def bind_err_def)

lemma bit_one_hot: "bit (2 ^ x :: u32) n \<longleftrightarrow> n = x \<and> x < 32"
  by (auto simp: bit_simps)

lemma digit_field_one_bit:
  assumes "0 \<le> v" "v \<le> 9"
  shows "\<exists>f. digit_field v = Inr f \<and> f < 2 ^ 10 \<and> (\<forall>n. bit f n \<longleftrightarrow> n = nat v)"
proof -
  have f: "digit_field v = Inr (2 ^ nat v)"
    using assms by (rule digit_field_digit)
  have n: "nat v < 10"
    using assms by simp
  have "(2 ^ nat v :: u32) < 2 ^ 10"
    using small_cases [OF assms] by auto
  moreover have "\<forall>n. bit (2 ^ nat v :: u32) n \<longleftrightarrow> n = nat v"
    using n by (simp add: bit_one_hot)
  ultimately show ?thesis
    using f by simp
qed

text \<open>
  Claim C1, at the blank. The claim has the codec produce a field with no bit set for
  BLANK. In the code \<^verbatim>\<open>setNXnDigit(BLANK_DIGIT)\<close> stores \<^verbatim>\<open>NUMERIC_DIGITS[10] = 0xFF\<close>, and
  \<^verbatim>\<open>show()\<close> then reads \<^verbatim>\<open>SymbolArray[0xFF]\<close>, outside the table of 10 entries: the
  field is not determined by the program, and is not the field 0 of the claim.
\<close>

theorem C1_blank_reads_outside_SymbolArray:
  "slot_code BLANK_DIGIT = Inr 0xFF \<and> length SymbolArray = 10
   \<and> digit_field BLANK_DIGIT = Inl OutOfBounds \<and> digit_field BLANK_DIGIT \<noteq> Inr 0"
  by (simp add: digit_field_def symbol_def slot_code_def array_read_def NUMERIC_DIGITS_def
      SymbolArray_def bind_err_def BLANK_DIGIT_def DIGIT_BLANK_def)

subsection \<open>The dispatch of updateDisplay()\<close>

lemma c_div_nonneg: "0 \<le> a \<Longrightarrow> 0 < b \<Longrightarrow> c_div a b = a div b"
  by (cases "a = 0") (simp_all add: c_div_def)

lemma c_rem_nonneg: "0 \<le> a \<Longrightarrow> 0 < b \<Longrightarrow> c_rem a b = a mod b"
  by (simp add: c_rem_def c_div_nonneg minus_mult_div_eq_mod)

lemma c_rem_eq_0_iff:
  assumes "0 < b"
  shows "c_rem a b = 0 \<longleftrightarrow> b dvd a"
proof (cases "0 \<le> a")
  case True
  then show ?thesis using assms by (simp add: c_rem_nonneg mod_eq_0_iff_dvd)
next
  case False
  then have neg: "a < 0" by simp
  then have "c_div a b = - ((- a) div b)"
    using assms by (simp add: c_div_def)
  then have "c_rem a b = - ((- a) mod b)"
    by (simp add: c_rem_def algebra_simps minus_mult_div_eq_mod [symmetric])
  then have "c_rem a b = 0 \<longleftrightarrow> (- a) mod b = 0"
    by simp
  also have "\<dots> \<longleftrightarrow> b dvd a"
    by (simp add: mod_eq_0_iff_dvd)
  finally show ?thesis .
qed

lemma previousMinute_events:
  "previousMinute (antiPoisoning_event st) = minutes st"
  "previousMinute (rainbow_event st) = minutes st"
  "previousMinute (date_event cfg t st) = minutes st"
  "previousMinute (time_event cfg t st) = previousMinute st"
  by (simp_all add: antiPoisoning_event_def rainbow_event_def date_event_def time_event_def
      Let_def case_prod_beta split del: if_split)

lemma clockOn_events:
  "clockOn (antiPoisoning_event st) = clockOn st"
  "clockOn (rainbow_event st) = clockOn st"
  "clockOn (date_event cfg t st) = clockOn st"
  "clockOn (time_event cfg t st) = clockOn st"
  by (simp_all add: antiPoisoning_event_def rainbow_event_def date_event_def time_event_def
      Let_def case_prod_beta split del: if_split)


lemma updateDisplay_on:
  assumes "on_window cfg t"
  shows "fst (updateDisplay cfg t st) = selected (minute t) (previousMinute st)"
    and "previousMinute (snd (updateDisplay cfg t st)) =
           (if selected (minute t) (previousMinute st) = ShowTime then previousMinute st
            else minute t)"
    and "clockOn (snd (updateDisplay cfg t st))"
  using assms
  by (simp_all add: updateDisplay_def on_window_def selected_def Let_def c_rem_eq_0_iff
      previousMinute_events clockOn_events)

lemma selected_again: "selected m (if selected m prev = ShowTime then prev else m) = ShowTime"
  by (simp add: selected_def)

lemma run_same_minute:
  assumes "\<forall>u\<in>set ts. on_window cfg u \<and> minute u = m"
    and "selected m (previousMinute st) = ShowTime"
  shows "fst (run cfg ts st) = replicate (length ts) ShowTime"
  using assms
proof (induction ts arbitrary: st)
  case Nil
  then show ?case by simp
next
  case (Cons u us)
  then have u: "on_window cfg u" "minute u = m"
    by simp_all
  obtain p st1 where ud: "updateDisplay cfg u st = (p, st1)"
    by (cases "updateDisplay cfg u st")
  have p: "p = ShowTime"
    using updateDisplay_on(1) [OF u(1), of st] ud u(2) Cons.prems(2) by simp
  have "previousMinute st1 = previousMinute st"
    using updateDisplay_on(2) [OF u(1), of st] ud u(2) Cons.prems(2) by simp
  then have "selected m (previousMinute st1) = ShowTime"
    using Cons.prems(2) by simp
  moreover have "\<forall>u\<in>set us. on_window cfg u \<and> minute u = m"
    using Cons.prems(1) by simp
  ultimately have "fst (run cfg us st1) = replicate (length us) ShowTime"
    by (rule Cons.IH [rotated])
  then show ?case
    using ud p by (simp add: split_beta)
qed

lemma run_Cons:
  "fst (run cfg (t # ts) st) =
     fst (updateDisplay cfg t st) # fst (run cfg ts (snd (updateDisplay cfg t st)))"
  by (simp add: split_beta)

text \<open>
  Claim C2, amended. On a tick inside the on-window exactly one branch runs, chosen in
  the order: minute differs from the remembered minute and is 0, anti-poisoning; differs,
  is not 0 and is divisible by 15, rainbow; differs, is not 0 and is divisible by 10,
  date; otherwise the time. The remembered minute is overwritten exactly when one of the
  first three runs. On the following ticks of the same minute only the time is shown, so
  each of the three events runs at most once per minute, and once when the minute differs
  from the remembered minute at its first tick.
\<close>

theorem C2_dispatch_once_per_minute:
  assumes "on_window cfg t"
    and "\<forall>u\<in>set ts. on_window cfg u \<and> minute u = minute t"
  shows "fst (updateDisplay cfg t st) =
           (if minute t \<noteq> previousMinute st \<and> minute t = 0 then AntiPoisoningSweep
            else if minute t \<noteq> previousMinute st \<and> minute t \<noteq> 0 \<and> 15 dvd minute t
              then RainbowSweep
            else if minute t \<noteq> previousMinute st \<and> minute t \<noteq> 0 \<and> 10 dvd minute t
              then ShowDate
            else ShowTime)
       \<and> previousMinute (snd (updateDisplay cfg t st)) =
           (if fst (updateDisplay cfg t st) = ShowTime then previousMinute st else minute t)
       \<and> fst (run cfg (t # ts) st) =
           fst (updateDisplay cfg t st) # replicate (length ts) ShowTime"
proof -
  have a: "fst (updateDisplay cfg t st) =
           (if minute t \<noteq> previousMinute st \<and> minute t = 0 then AntiPoisoningSweep
            else if minute t \<noteq> previousMinute st \<and> minute t \<noteq> 0 \<and> 15 dvd minute t
              then RainbowSweep
            else if minute t \<noteq> previousMinute st \<and> minute t \<noteq> 0 \<and> 10 dvd minute t
              then ShowDate
            else ShowTime)"
    using updateDisplay_on(1) [OF assms(1), of st] by (simp add: selected_def)
  have b: "previousMinute (snd (updateDisplay cfg t st)) =
           (if fst (updateDisplay cfg t st) = ShowTime then previousMinute st else minute t)"
    using updateDisplay_on(1,2) [OF assms(1), of st] by simp
  obtain p st1 where ud: "updateDisplay cfg t st = (p, st1)"
    by (cases "updateDisplay cfg t st")
  have "selected (minute t) (previousMinute st1) = ShowTime"
    using updateDisplay_on(2) [OF assms(1), of st] ud selected_again [of "minute t" "previousMinute st"]
    by simp
  with assms(2) have "fst (run cfg ts st1) = replicate (length ts) ShowTime"
    by (rule run_same_minute)
  then have c: "fst (run cfg (t # ts) st) =
           fst (updateDisplay cfg t st) # replicate (length ts) ShowTime"
    using ud by (simp add: split_beta)
  from a b c show ?thesis
    by (intro conjI)
qed

theorem C2_dispatch_once_per_minute_witness:
  "on_window (sketch_config (\<lambda>h. 0))
     \<lparr>hour = 8, minute = 0, second = 0, day = 3, month = 11, year = 2026\<rparr>
   \<and> fst (run (sketch_config (\<lambda>h. 0))
       [\<lparr>hour = 8, minute = 0, second = 0, day = 3, month = 11, year = 2026\<rparr>,
        \<lparr>hour = 8, minute = 0, second = 1, day = 3, month = 11, year = 2026\<rparr>,
        \<lparr>hour = 8, minute = 0, second = 2, day = 3, month = 11, year = 2026\<rparr>]
       ((initial_clock NixieTubeShield)\<lparr>previousMinute := 50\<rparr>))
     = [AntiPoisoningSweep, ShowTime, ShowTime]"
  using C2_dispatch_once_per_minute
    [of "sketch_config (\<lambda>h. 0)"
      "\<lparr>hour = 8, minute = 0, second = 0, day = 3, month = 11, year = 2026\<rparr>"
      "[\<lparr>hour = 8, minute = 0, second = 1, day = 3, month = 11, year = 2026\<rparr>,
        \<lparr>hour = 8, minute = 0, second = 2, day = 3, month = 11, year = 2026\<rparr>]"
      "(initial_clock NixieTubeShield)\<lparr>previousMinute := 50\<rparr>"]
  by (simp add: on_window_def sketch_config_def)

text \<open>
  Claim C2 as stated has every occurrence of minute 0 swept exactly once. The remembered
  minute starts at 0 and only the three events overwrite it: from the initial globals the
  ticks 08:59:59, 09:00:00 and 09:00:01 change the minute from 59 to 0 and only show
  the time.
\<close>

theorem C2_first_minute_zero_counterexample:
  "minute \<lparr>hour = 8, minute = 59, second = 59, day = 3, month = 11, year = 2026\<rparr> \<noteq>
     minute \<lparr>hour = 9, minute = 0, second = 0, day = 3, month = 11, year = 2026\<rparr>
   \<and> fst (run (sketch_config (\<lambda>h. 0))
       [\<lparr>hour = 8, minute = 59, second = 59, day = 3, month = 11, year = 2026\<rparr>,
        \<lparr>hour = 9, minute = 0, second = 0, day = 3, month = 11, year = 2026\<rparr>,
        \<lparr>hour = 9, minute = 0, second = 1, day = 3, month = 11, year = 2026\<rparr>]
       (initial_clock NixieTubeShield))
     = [ShowTime, ShowTime, ShowTime]"
proof -
  define cfg where "cfg = sketch_config (\<lambda>h. 0)"
  define t1 where "t1 = \<lparr>hour = 8, minute = 59, second = 59, day = 3, month = 11, year = 2026\<rparr>"
  define t2 where "t2 = \<lparr>hour = 9, minute = 0, second = 0, day = 3, month = 11, year = 2026\<rparr>"
  define t3 where "t3 = \<lparr>hour = 9, minute = 0, second = 1, day = 3, month = 11, year = 2026\<rparr>"
  define st0 where "st0 = initial_clock NixieTubeShield"
  define st1 where "st1 = snd (updateDisplay cfg t1 st0)"
  define st2 where "st2 = snd (updateDisplay cfg t2 st1)"
  have w: "on_window cfg t1" "on_window cfg t2" "on_window cfg t3"
    by (simp_all add: on_window_def cfg_def sketch_config_def t1_def t2_def t3_def)
  have m: "minute t1 = 59" "minute t2 = 0" "minute t3 = 0"
    by (simp_all add: t1_def t2_def t3_def)
  have s59: "selected 59 0 = ShowTime" and s0: "selected 0 0 = ShowTime"
    by (simp_all add: selected_def)
  have p0: "previousMinute st0 = 0"
    by (simp add: st0_def initial_clock_def)
  have a1: "fst (updateDisplay cfg t1 st0) = ShowTime"
    using updateDisplay_on(1) [OF w(1), of st0] by (simp add: m p0 s59)
  have p1: "previousMinute st1 = 0"
    unfolding st1_def using updateDisplay_on(2) [OF w(1), of st0] by (simp add: m p0 s59)
  have a2: "fst (updateDisplay cfg t2 st1) = ShowTime"
    using updateDisplay_on(1) [OF w(2), of st1] by (simp add: m p1 s0)
  have p2: "previousMinute st2 = 0"
    unfolding st2_def using updateDisplay_on(2) [OF w(2), of st1] by (simp add: m p1 s0)
  have a3: "fst (updateDisplay cfg t3 st2) = ShowTime"
    using updateDisplay_on(1) [OF w(3), of st2] by (simp add: m p2 s0)
  have "fst (run cfg [t1, t2, t3] st0) = [ShowTime, ShowTime, ShowTime]"
    unfolding run_Cons st1_def [symmetric] st2_def [symmetric] a1 a2 a3 by simp
  then show ?thesis
    unfolding cfg_def t1_def t2_def t3_def st0_def by simp
qed

subsection \<open>The power window\<close>

lemma digits_setDigit: "digits (setDigit k d s) = (digits s)(k := slot_code d)"
  by (simp add: setDigit_def)

lemma frame_out [simp]: "frame (s\<lparr>out := x\<rparr>) = frame s"
  by (simp add: frame_def registers_def)

lemma off_event_on:
  assumes "clockOn st"
  shows "out (SHIELD (off_event st)) =
           out (SHIELD st) @
             [HvPin False, DotsPin False, LatchPin False, SpiFrame (frame (SHIELD (off_event st))),
              LatchPin True, LedColor 0 0 0]"
    and "\<forall>k<6. digits (SHIELD (off_event st)) k = slot_code BLANK_DIGIT"
    and "\<not> dotsEnabled (SHIELD (off_event st))"
    and "\<not> clockOn (off_event st)"
proof -
  show "out (SHIELD (off_event st)) =
           out (SHIELD st) @
             [HvPin False, DotsPin False, LatchPin False, SpiFrame (frame (SHIELD (off_event st))),
              LatchPin True, LedColor 0 0 0]"
    using assms
    by (simp add: off_event_def Let_def hvEnable_def dotsEnable_def setNX1Digit_def
        setNX2Digit_def setNX3Digit_def setNX4Digit_def setNX5Digit_def setNX6Digit_def
        setDigit_def show_shield_def setLEDColor_def setLEDColor3_def RGB24_black_def
        frame_def registers_def)
  have "digits (SHIELD (off_event st)) =
          (digits (SHIELD st))(5 := slot_code BLANK_DIGIT, 4 := slot_code BLANK_DIGIT,
            3 := slot_code BLANK_DIGIT, 2 := slot_code BLANK_DIGIT, 1 := slot_code BLANK_DIGIT,
            0 := slot_code BLANK_DIGIT)"
    using assms
    by (simp add: off_event_def Let_def hvEnable_def dotsEnable_def setNX1Digit_def
        setNX2Digit_def setNX3Digit_def setNX4Digit_def setNX5Digit_def setNX6Digit_def
        digits_setDigit show_shield_def setLEDColor_def setLEDColor3_def)
  then show "\<forall>k<6. digits (SHIELD (off_event st)) k = slot_code BLANK_DIGIT"
    by simp
  show "\<not> dotsEnabled (SHIELD (off_event st))"
    using assms
    by (simp add: off_event_def Let_def hvEnable_def dotsEnable_def setNX1Digit_def
        setNX2Digit_def setNX3Digit_def setNX4Digit_def setNX5Digit_def setNX6Digit_def
        setDigit_def show_shield_def setLEDColor_def setLEDColor3_def)
  show "\<not> clockOn (off_event st)"
    using assms by (simp add: off_event_def Let_def)
qed

lemma symbol_blank: "symbol (slot_code BLANK_DIGIT) = Inl OutOfBounds"
  by (simp add: symbol_def slot_code_def array_read_def NUMERIC_DIGITS_def SymbolArray_def
      bind_err_def BLANK_DIGIT_def DIGIT_BLANK_def)

lemma frame_blank:
  assumes "digits s 0 = slot_code BLANK_DIGIT"
  shows "frame s = Inl OutOfBounds"
  using assms by (simp add: frame_def registers_def reg_of_def symbol_blank bind_err_def)

lemma frame_off_event:
  assumes "clockOn st"
  shows "frame (SHIELD (off_event st)) = Inl OutOfBounds"
  using off_event_on(2) [OF assms] by (intro frame_blank) simp

lemma off_event_off: "\<not> clockOn st \<Longrightarrow> off_event st = st"
  by (simp add: off_event_def)

lemma updateDisplay_off:
  assumes "\<not> on_window cfg t"
  shows "updateDisplay cfg t st = (PoweredOff, off_event st)"
  using assms by (simp add: updateDisplay_def on_window_def Let_def)

lemma clockOn_off_event: "\<not> clockOn (off_event st)"
  by (cases "clockOn st") (simp_all add: off_event_on(4) off_event_off)

lemma run_off:
  assumes "\<forall>u\<in>set ts. \<not> on_window cfg u" and "\<not> clockOn st"
  shows "run cfg ts st = (replicate (length ts) PoweredOff, st)"
  using assms
proof (induction ts)
  case Nil
  then show ?case by simp
next
  case (Cons u us)
  then have "updateDisplay cfg u st = (PoweredOff, st)"
    by (simp add: updateDisplay_off off_event_off)
  moreover have "run cfg us st = (replicate (length us) PoweredOff, st)"
    using Cons by simp
  ultimately show ?case
    by simp
qed

text \<open>
  Claim C6, on the code. After a tick the clock is on exactly when the local hour is
  inside the window. A tick outside the window with the clock on switches it off with, in
  this order: high voltage off, dots off, the six slots set to blank, \<^verbatim>\<open>show()\<close> between
  the two latch writes, the LEDs set to black. A tick outside the window with the clock
  off changes nothing and performs nothing, so over any run of ticks outside the window
  the shutdown is performed once, by the first. The frame that \<^verbatim>\<open>show()\<close> pushes there
  is not the blanked frame of the claim: each of its six fields is the read
  \<^verbatim>\<open>SymbolArray[0xFF]\<close> outside the table, so its bytes are not determined by the program.
\<close>

theorem C6_power_window_and_shutdown:
  "(clockOn (snd (updateDisplay cfg t st)) \<longleftrightarrow> on_window cfg t)
   \<and> (\<not> on_window cfg t \<and> clockOn st \<longrightarrow>
        fst (updateDisplay cfg t st) = PoweredOff
        \<and> out (SHIELD (snd (updateDisplay cfg t st))) =
            out (SHIELD st) @
              [HvPin False, DotsPin False, LatchPin False,
               SpiFrame (Inl OutOfBounds), LatchPin True, LedColor 0 0 0]
        \<and> frame (SHIELD (snd (updateDisplay cfg t st))) = Inl OutOfBounds
        \<and> (\<forall>k<6. digits (SHIELD (snd (updateDisplay cfg t st))) k = slot_code BLANK_DIGIT)
        \<and> \<not> dotsEnabled (SHIELD (snd (updateDisplay cfg t st))))
   \<and> (\<not> on_window cfg t \<and> \<not> clockOn st \<longrightarrow> updateDisplay cfg t st = (PoweredOff, st))
   \<and> (\<not> on_window cfg t \<and> (\<forall>u\<in>set ts. \<not> on_window cfg u) \<longrightarrow>
        run cfg (t # ts) st =
          (replicate (Suc (length ts)) PoweredOff, snd (updateDisplay cfg t st)))"
proof (cases "on_window cfg t")
  case True
  then show ?thesis
    using updateDisplay_on(3) [OF True, of st] by simp
next
  case False
  have ud: "updateDisplay cfg t st = (PoweredOff, off_event st)"
    using False by (rule updateDisplay_off)
  have a: "clockOn (snd (updateDisplay cfg t st)) \<longleftrightarrow> on_window cfg t"
    using False ud clockOn_off_event [of st] by simp
  have b: "clockOn st \<longrightarrow>
        fst (updateDisplay cfg t st) = PoweredOff
        \<and> out (SHIELD (snd (updateDisplay cfg t st))) =
            out (SHIELD st) @
              [HvPin False, DotsPin False, LatchPin False,
               SpiFrame (Inl OutOfBounds), LatchPin True, LedColor 0 0 0]
        \<and> frame (SHIELD (snd (updateDisplay cfg t st))) = Inl OutOfBounds
        \<and> (\<forall>k<6. digits (SHIELD (snd (updateDisplay cfg t st))) k = slot_code BLANK_DIGIT)
        \<and> \<not> dotsEnabled (SHIELD (snd (updateDisplay cfg t st)))"
    unfolding ud fst_conv snd_conv
    using off_event_on(1,2,3) [of st] frame_off_event [of st] by simp
  have c: "\<not> clockOn st \<longrightarrow> updateDisplay cfg t st = (PoweredOff, st)"
    using ud by (simp add: off_event_off)
  have d: "(\<forall>u\<in>set ts. \<not> on_window cfg u) \<longrightarrow>
        run cfg (t # ts) st =
          (replicate (Suc (length ts)) PoweredOff, snd (updateDisplay cfg t st))"
  proof
    assume "\<forall>u\<in>set ts. \<not> on_window cfg u"
    then have "run cfg ts (off_event st) = (replicate (length ts) PoweredOff, off_event st)"
      using clockOn_off_event [of st] by (rule run_off)
    then show "run cfg (t # ts) st =
          (replicate (Suc (length ts)) PoweredOff, snd (updateDisplay cfg t st))"
      using ud by simp
  qed
  from a b c d False show ?thesis
    by blast
qed

theorem C6_power_window_and_shutdown_witness:
  "on_window (sketch_config (\<lambda>h. 0))
     \<lparr>hour = 22, minute = 59, second = 59, day = 3, month = 11, year = 2026\<rparr>
   \<and> clockOn (snd (updateDisplay (sketch_config (\<lambda>h. 0))
       \<lparr>hour = 22, minute = 59, second = 59, day = 3, month = 11, year = 2026\<rparr>
       (initial_clock NixieTubeShield)))
   \<and> \<not> on_window (sketch_config (\<lambda>h. 0))
       \<lparr>hour = 23, minute = 0, second = 0, day = 3, month = 11, year = 2026\<rparr>
   \<and> out (SHIELD (snd (updateDisplay (sketch_config (\<lambda>h. 0))
       \<lparr>hour = 23, minute = 0, second = 0, day = 3, month = 11, year = 2026\<rparr>
       (initial_clock NixieTubeShield)))) =
       out NixieTubeShield @
         [HvPin False, DotsPin False, LatchPin False, SpiFrame (Inl OutOfBounds),
          LatchPin True, LedColor 0 0 0]
   \<and> frame (SHIELD (snd (updateDisplay (sketch_config (\<lambda>h. 0))
       \<lparr>hour = 23, minute = 0, second = 0, day = 3, month = 11, year = 2026\<rparr>
       (initial_clock NixieTubeShield)))) \<noteq> Inr [0, 0, 0, 0, 0, 0, 0, 0]
   \<and> run (sketch_config (\<lambda>h. 0))
       [\<lparr>hour = 23, minute = 0, second = 0, day = 3, month = 11, year = 2026\<rparr>,
        \<lparr>hour = 23, minute = 0, second = 1, day = 3, month = 11, year = 2026\<rparr>]
       (initial_clock NixieTubeShield) =
       ([PoweredOff, PoweredOff],
        snd (updateDisplay (sketch_config (\<lambda>h. 0))
          \<lparr>hour = 23, minute = 0, second = 0, day = 3, month = 11, year = 2026\<rparr>
          (initial_clock NixieTubeShield)))"
  using C6_power_window_and_shutdown
    [of "sketch_config (\<lambda>h. 0)"
      "\<lparr>hour = 23, minute = 0, second = 0, day = 3, month = 11, year = 2026\<rparr>"
      "initial_clock NixieTubeShield"
      "[\<lparr>hour = 23, minute = 0, second = 1, day = 3, month = 11, year = 2026\<rparr>]"]
    C6_power_window_and_shutdown
    [of "sketch_config (\<lambda>h. 0)"
      "\<lparr>hour = 22, minute = 59, second = 59, day = 3, month = 11, year = 2026\<rparr>"
      "initial_clock NixieTubeShield" "[]"]
  by (simp add: on_window_def sketch_config_def initial_clock_def)

subsection \<open>The first minute 0 after startup\<close>

text \<open>
  Claim C10. \<^verbatim>\<open>previousMinute\<close> starts at 0. For the initial globals a tick whose minute is
  0 never runs the anti-poisoning branch: inside the on-window the test
  \<^verbatim>\<open>minutes != previousMinute\<close> fails, the time is shown and \<^verbatim>\<open>previousMinute\<close> stays 0
  (outside the window no branch of the dispatch is reached).
\<close>

theorem C10_first_minute_zero_not_swept:
  "previousMinute (initial_clock s) = 0
   \<and> (minute t = 0 \<longrightarrow>
        fst (updateDisplay cfg t (initial_clock s)) \<noteq> AntiPoisoningSweep
        \<and> (on_window cfg t \<longrightarrow>
             fst (updateDisplay cfg t (initial_clock s)) = ShowTime
             \<and> previousMinute (snd (updateDisplay cfg t (initial_clock s))) = 0))"
proof -
  have p: "previousMinute (initial_clock s) = 0"
    by (simp add: initial_clock_def)
  have "fst (updateDisplay cfg t (initial_clock s)) = ShowTime
        \<and> previousMinute (snd (updateDisplay cfg t (initial_clock s))) = 0"
    if "minute t = 0" "on_window cfg t"
    using updateDisplay_on(1,2) [OF that(2), of "initial_clock s"] that(1) p
    by (simp add: selected_def)
  moreover have "fst (updateDisplay cfg t (initial_clock s)) \<noteq> AntiPoisoningSweep"
    if "\<not> on_window cfg t"
    using updateDisplay_off [OF that, of "initial_clock s"] by simp
  ultimately show ?thesis
    using p by (cases "on_window cfg t") auto
qed

theorem C10_first_minute_zero_not_swept_witness:
  "minute \<lparr>hour = 9, minute = 0, second = 30, day = 3, month = 11, year = 2026\<rparr> = 0
   \<and> on_window (sketch_config (\<lambda>h. 0))
       \<lparr>hour = 9, minute = 0, second = 30, day = 3, month = 11, year = 2026\<rparr>
   \<and> fst (updateDisplay (sketch_config (\<lambda>h. 0))
       \<lparr>hour = 9, minute = 0, second = 30, day = 3, month = 11, year = 2026\<rparr>
       (initial_clock NixieTubeShield)) = ShowTime
   \<and> previousMinute (snd (updateDisplay (sketch_config (\<lambda>h. 0))
       \<lparr>hour = 9, minute = 0, second = 30, day = 3, month = 11, year = 2026\<rparr>
       (initial_clock NixieTubeShield))) = 0"
  using C10_first_minute_zero_not_swept
    [of NixieTubeShield
      "\<lparr>hour = 9, minute = 0, second = 30, day = 3, month = 11, year = 2026\<rparr>"
      "sketch_config (\<lambda>h. 0)"]
  by (simp add: on_window_def sketch_config_def)

subsection \<open>Leading zeros\<close>

lemma tens_range:
  fixes x :: int
  assumes "0 \<le> x" "x \<le> 99"
  shows "0 \<le> x div 10" "x div 10 \<le> 9" "x \<ge> 10 \<longleftrightarrow> x div 10 \<noteq> 0"
  using assms by arith+

lemma units_range:
  fixes x :: int
  shows "0 \<le> x mod 10" "x mod 10 \<le> 9"
  by simp_all

lemma shows_digit_code:
  assumes "0 \<le> d" "d \<le> 9"
  shows "shows_digit (slot_code d) d"
  using assms digit_not_blank [OF assms] by (simp add: shows_digit_def)

lemma shows_units:
  assumes "0 \<le> x"
  shows "shows_digit (slot_code (c_rem x 10)) (x mod 10)"
  using assms shows_digit_code [OF units_range, of x] by (simp add: c_rem_nonneg)

lemma shows_plain_tens:
  assumes "0 \<le> x" "x \<le> 99"
  shows "shows_digit (slot_code (c_div x 10)) (x div 10)"
  using assms shows_digit_code [OF tens_range(1,2) [OF assms]] by (simp add: c_div_nonneg)

lemma shows_tens_slot:
  assumes "0 \<le> x" "x \<le> 99"
  shows "shows_tens z (slot_code (if x \<ge> 10 then c_div x 10 else if z then BLANK_DIGIT else 0)) x"
proof (cases "x \<ge> 10")
  case True
  then have "x div 10 \<noteq> 0"
    using tens_range(3) [OF assms] by simp
  then show ?thesis
    using True shows_plain_tens [OF assms] by (simp add: shows_tens_def)
next
  case False
  then have z: "x div 10 = 0"
    using tens_range(3) [OF assms] by simp
  show ?thesis
    using False z shows_digit_code [of 0] by (simp add: shows_tens_def)
qed

lemma if_setDigit:
  "(if c then setDigit k a s else setDigit k b s) = setDigit k (if c then a else b) s"
  by simp

lemma toggle_pair:
  "snd (if c then (False, dotsEnable True s) else (True, dotsEnable False s)) = dotsEnable c s"
  "fst (if c then (False, dotsEnable True s) else (True, dotsEnable False s)) = (\<not> c)"
  by simp_all

lemma digits_ops:
  "digits (show_shield s) = digits s"
  "digits (setLEDColor col s) = digits s"
  "digits (dotsEnable b s) = digits s"
  "digits (delay n s) = digits s"
  "digits (hvEnable b s) = digits s"
  by (simp_all add: show_shield_def setLEDColor_def setLEDColor3_def dotsEnable_def delay_def
      hvEnable_def)

lemma digits_time_event:
  "digits (SHIELD (time_event cfg t st)) =
     (digits (SHIELD st))
       (5 := slot_code (if shown_hour cfg t \<ge> 10 then c_div (shown_hour cfg t) 10
                        else if SUPPRESS_LEADING_ZEROS cfg then BLANK_DIGIT else 0),
        4 := slot_code (c_rem (shown_hour cfg t) 10),
        3 := slot_code (c_div (minute t) 10),
        2 := slot_code (c_rem (minute t) 10),
        1 := slot_code (c_div (second t) 10),
        0 := slot_code (c_rem (second t) 10))"
  unfolding time_event_def shown_hour_def setNX1Digit_def setNX2Digit_def setNX3Digit_def
    setNX4Digit_def setNX5Digit_def setNX6Digit_def if_setDigit
  by (simp add: Let_def case_prod_beta toggle_pair digits_ops digits_setDigit split del: if_split)

lemma digits_date_event:
  "digits (SHIELD (date_event cfg t st)) =
     (digits (SHIELD st))
       (5 := slot_code (if month t \<ge> 10 then c_div (month t) 10
                        else if SUPPRESS_LEADING_ZEROS cfg then BLANK_DIGIT else 0),
        4 := slot_code (c_rem (month t) 10),
        3 := slot_code (if day t \<ge> 10 then c_div (day t) 10
                        else if SUPPRESS_LEADING_ZEROS cfg then BLANK_DIGIT else 0),
        2 := slot_code (c_rem (day t) 10),
        1 := slot_code (if year t - 2000 \<ge> 10 then c_div (year t - 2000) 10
                        else if SUPPRESS_LEADING_ZEROS cfg then BLANK_DIGIT else 0),
        0 := slot_code (c_rem (year t - 2000) 10))"
  unfolding date_event_def setNX1Digit_def setNX2Digit_def setNX3Digit_def
    setNX4Digit_def setNX5Digit_def setNX6Digit_def if_setDigit
  by (simp add: Let_def digits_ops digits_setDigit split del: if_split)

lemma shown_hour_range:
  assumes "valid_time t"
  shows "0 \<le> shown_hour cfg t" "shown_hour cfg t \<le> 99"
  using assms by (auto simp: valid_time_def shown_hour_def hourFormat12_def)

text \<open>
  Claim C7, amended. With zeros suppressed, a tens digit of 0 is rendered blank exactly in
  the four tens slots that the code suppresses: the hour in the time display, and the
  month, the day and the two-digit year in the date display. The other slots (hour units,
  minute and second tens and units, month, day and year units) always show their digit.
  With suppression off every slot shows its digit.
\<close>

theorem C7_leading_zero_fields:
  assumes "valid_time t"
  shows "(let d = digits (SHIELD (time_event cfg t st)); z = SUPPRESS_LEADING_ZEROS cfg in
            shows_tens z (d 5) (shown_hour cfg t) \<and> shows_digit (d 4) (shown_hour cfg t mod 10)
            \<and> shows_digit (d 3) (minute t div 10) \<and> shows_digit (d 2) (minute t mod 10)
            \<and> shows_digit (d 1) (second t div 10) \<and> shows_digit (d 0) (second t mod 10))
       \<and> (let d = digits (SHIELD (date_event cfg t st)); z = SUPPRESS_LEADING_ZEROS cfg in
            shows_tens z (d 5) (month t) \<and> shows_digit (d 4) (month t mod 10)
            \<and> shows_tens z (d 3) (day t) \<and> shows_digit (d 2) (day t mod 10)
            \<and> shows_tens z (d 1) (year t - 2000) \<and> shows_digit (d 0) ((year t - 2000) mod 10))"
proof -
  note h = shown_hour_range [OF assms, of cfg]
  have r: "0 \<le> minute t" "minute t \<le> 99" "0 \<le> second t" "second t \<le> 99"
    "0 \<le> month t" "month t \<le> 99" "0 \<le> day t" "day t \<le> 99"
    "0 \<le> year t - 2000" "year t - 2000 \<le> 99"
    using assms by (simp_all add: valid_time_def)
  show ?thesis
    unfolding digits_time_event digits_date_event Let_def
    using shows_tens_slot [OF h] shows_units [OF h(1)]
      shows_plain_tens [OF r(1,2)] shows_units [OF r(1)]
      shows_plain_tens [OF r(3,4)] shows_units [OF r(3)]
      shows_tens_slot [OF r(5,6)] shows_units [OF r(5)]
      shows_tens_slot [OF r(7,8)] shows_units [OF r(7)]
      shows_tens_slot [OF r(9,10)] shows_units [OF r(9)]
    by simp
qed

theorem C7_leading_zero_fields_witness:
  "valid_time \<lparr>hour = 7, minute = 5, second = 9, day = 3, month = 11, year = 2026\<rparr>
   \<and> digits (SHIELD (time_event (sketch_config (\<lambda>h. 0))
        \<lparr>hour = 7, minute = 5, second = 9, day = 3, month = 11, year = 2026\<rparr>
        (initial_clock NixieTubeShield))) 5 = slot_code BLANK_DIGIT
   \<and> digits (SHIELD (time_event (sketch_config (\<lambda>h. 0))
        \<lparr>hour = 7, minute = 5, second = 9, day = 3, month = 11, year = 2026\<rparr>
        (initial_clock NixieTubeShield))) 4 = slot_code 7
   \<and> digits (SHIELD (time_event ((sketch_config (\<lambda>h. 0))\<lparr>SUPPRESS_LEADING_ZEROS := False\<rparr>)
        \<lparr>hour = 7, minute = 5, second = 9, day = 3, month = 11, year = 2026\<rparr>
        (initial_clock NixieTubeShield))) 5 = slot_code 0
   \<and> digits (SHIELD (time_event ((sketch_config (\<lambda>h. 0))\<lparr>SUPPRESS_LEADING_ZEROS := False\<rparr>)
        \<lparr>hour = 7, minute = 5, second = 9, day = 3, month = 11, year = 2026\<rparr>
        (initial_clock NixieTubeShield))) 4 = slot_code 7"
  using C7_leading_zero_fields
    [of "\<lparr>hour = 7, minute = 5, second = 9, day = 3, month = 11, year = 2026\<rparr>"
      "sketch_config (\<lambda>h. 0)" "initial_clock NixieTubeShield"]
    C7_leading_zero_fields
    [of "\<lparr>hour = 7, minute = 5, second = 9, day = 3, month = 11, year = 2026\<rparr>"
      "(sketch_config (\<lambda>h. 0))\<lparr>SUPPRESS_LEADING_ZEROS := False\<rparr>"
      "initial_clock NixieTubeShield"]
  by (simp add: valid_time_def sketch_config_def shown_hour_def hourFormat12_def Let_def
      shows_tens_def shows_digit_def)

text \<open>
  Claim C7 as stated lists the hour, day and year tens digits as exactly the suppressed
  ones. The month tens digit is suppressed as well: in March, with suppression on, the NX1
  slot of the date display holds the blank code and not the code of 0.
\<close>

theorem C7_month_tens_counterexample:
  "SUPPRESS_LEADING_ZEROS (sketch_config (\<lambda>h. 0))
   \<and> month \<lparr>hour = 12, minute = 10, second = 0, day = 15, month = 3, year = 2021\<rparr> div 10 = 0
   \<and> fst (updateDisplay (sketch_config (\<lambda>h. 0))
        \<lparr>hour = 12, minute = 10, second = 0, day = 15, month = 3, year = 2021\<rparr>
        (initial_clock NixieTubeShield)) = ShowDate
   \<and> digits (SHIELD (snd (updateDisplay (sketch_config (\<lambda>h. 0))
        \<lparr>hour = 12, minute = 10, second = 0, day = 15, month = 3, year = 2021\<rparr>
        (initial_clock NixieTubeShield)))) 5 = slot_code BLANK_DIGIT
   \<and> slot_code BLANK_DIGIT \<noteq> slot_code 0"
  using digit_not_blank [of 0]
  by (simp add: updateDisplay_def Let_def initial_clock_def c_rem_nonneg digits_date_event
      sketch_config_def)

subsection \<open>The transfer words of show()\<close>

lemma bit_masks: "bit UpperDotsMask n \<longleftrightarrow> n = 31" "bit LowerDotsMask n \<longleftrightarrow> n = 30"
proof -
  have u: "UpperDotsMask = 2 ^ 31" and l: "LowerDotsMask = 2 ^ 30"
    by (simp_all add: UpperDotsMask_def LowerDotsMask_def)
  show "bit UpperDotsMask n \<longleftrightarrow> n = 31"
    unfolding u bit_one_hot by simp
  show "bit LowerDotsMask n \<longleftrightarrow> n = 30"
    unfolding l bit_one_hot by simp
qed

lemma bit_reg_word:
  assumes "x < 10" "y < 10" "z < 10"
  shows "bit (reg_word en (2 ^ x) (2 ^ y) (2 ^ z)) n \<longleftrightarrow>
           n = 20 + x \<or> n = 10 + y \<or> n = z \<or> (en \<and> (n = 30 \<or> n = 31))"
proof (cases en)
  case True
  then show ?thesis
    using assms
    by (auto simp: reg_word_def dots_bits_def Let_def bit_or_iff bit_push_bit_iff bit_one_hot
        bit_masks)
next
  case False
  then show ?thesis
    using assms
    by (auto simp: reg_word_def dots_bits_def Let_def bit_or_iff bit_and_iff bit_not_iff
        bit_push_bit_iff bit_one_hot bit_masks)
qed

lemma be_word_spi_bytes: "be_word (spi_bytes v) = v"
proof (rule bit_eqI)
  fix n
  assume "possible_bit TYPE(u32) n"
  then have n: "n < 32"
    by (simp add: possible_bit_word)
  consider "n < 8" | "8 \<le> n" "n < 16" | "16 \<le> n" "n < 24" | "24 \<le> n"
    by linarith
  then show "bit (be_word (spi_bytes v)) n = bit v n"
  proof cases
    case 1
    then show ?thesis
      by (auto simp: be_word_def spi_bytes_def bit_simps)
  next
    case 2
    then show ?thesis
      by (auto simp: be_word_def spi_bytes_def bit_simps)
  next
    case 3
    then show ?thesis
      by (auto simp: be_word_def spi_bytes_def bit_simps)
  next
    case 4
    then show ?thesis
      using n by (auto simp: be_word_def spi_bytes_def bit_simps)
  qed
qed

lemma field_reg_word:
  assumes "x < 10" "y < 10" "z < 10"
  shows "field 20 (reg_word en (2 ^ x) (2 ^ y) (2 ^ z)) = 2 ^ x"
    and "field 10 (reg_word en (2 ^ x) (2 ^ y) (2 ^ z)) = 2 ^ y"
    and "field 0 (reg_word en (2 ^ x) (2 ^ y) (2 ^ z)) = 2 ^ z"
proof -
  note b = bit_reg_word [OF assms]
  show "field 20 (reg_word en (2 ^ x) (2 ^ y) (2 ^ z)) = 2 ^ x"
    using assms
    by (intro bit_eqI) (auto simp: field_def bit_take_bit_iff bit_drop_bit_eq b bit_one_hot)
  show "field 10 (reg_word en (2 ^ x) (2 ^ y) (2 ^ z)) = 2 ^ y"
    using assms
    by (intro bit_eqI) (auto simp: field_def bit_take_bit_iff bit_drop_bit_eq b bit_one_hot)
  show "field 0 (reg_word en (2 ^ x) (2 ^ y) (2 ^ z)) = 2 ^ z"
    using assms
    by (intro bit_eqI) (auto simp: field_def bit_take_bit_iff bit_drop_bit_eq b bit_one_hot)
qed

lemma digit_of_field_digit:
  assumes "0 \<le> v" "v \<le> 9"
  shows "digit_of_field (2 ^ nat v) = Some v"
  using small_cases [OF assms]
  by (elim disjE) (simp_all add: digit_of_field_def upt_rec)

lemma symbol_digit:
  assumes "0 \<le> v" "v \<le> 9"
  shows "symbol (slot_code v) = Inr (2 ^ nat v)"
  using digit_field_digit [OF assms] by (simp add: digit_field_def)

lemma registers_load:
  assumes "0 \<le> d1 \<and> d1 \<le> 9" "0 \<le> d2 \<and> d2 \<le> 9" "0 \<le> d3 \<and> d3 \<le> 9"
    "0 \<le> d4 \<and> d4 \<le> 9" "0 \<le> d5 \<and> d5 \<le> 9" "0 \<le> d6 \<and> d6 \<le> 9"
  shows "registers (load d1 d2 d3 d4 d5 d6 en s) =
           Inr (reg_word en (2 ^ nat d6) (2 ^ nat d5) (2 ^ nat d4),
                reg_word en (2 ^ nat d3) (2 ^ nat d2) (2 ^ nat d1))"
proof -
  have d: "digits (load d1 d2 d3 d4 d5 d6 en s) =
             (digits s)(5 := slot_code d1, 4 := slot_code d2, 3 := slot_code d3,
               2 := slot_code d4, 1 := slot_code d5, 0 := slot_code d6)"
    by (simp add: load_def setNX1Digit_def setNX2Digit_def setNX3Digit_def setNX4Digit_def
        setNX5Digit_def setNX6Digit_def setDigit_def dotsEnable_def)
  have e: "dotsEnabled (load d1 d2 d3 d4 d5 d6 en s) = en"
    by (simp add: load_def setNX1Digit_def setNX2Digit_def setNX3Digit_def setNX4Digit_def
        setNX5Digit_def setNX6Digit_def setDigit_def dotsEnable_def)
  show ?thesis
    unfolding registers_def reg_of_def d e
    using assms
    by (simp add: symbol_digit bind_err_def)
qed


lemma inspect_registers:
  assumes "0 \<le> d1 \<and> d1 \<le> 9" "0 \<le> d2 \<and> d2 \<le> 9" "0 \<le> d3 \<and> d3 \<le> 9"
    "0 \<le> d4 \<and> d4 \<le> 9" "0 \<le> d5 \<and> d5 \<le> 9" "0 \<le> d6 \<and> d6 \<le> 9"
  shows "inspect (spi_bytes (reg_word en (2 ^ nat d6) (2 ^ nat d5) (2 ^ nat d4)) @
                  spi_bytes (reg_word en (2 ^ nat d3) (2 ^ nat d2) (2 ^ nat d1))) =
           ([Some d1, Some d2, Some d3, Some d4, Some d5, Some d6], en, en)"
proof -
  have n: "nat d1 < 10" "nat d2 < 10" "nat d3 < 10" "nat d4 < 10" "nat d5 < 10" "nat d6 < 10"
    using assms by linarith+
  have t: "take 4 (spi_bytes a @ spi_bytes b) = spi_bytes a"
    "take 4 (drop 4 (spi_bytes a @ spi_bytes b)) = spi_bytes b" for a b
    by (simp_all add: spi_bytes_def)
  show ?thesis
    unfolding inspect_def Let_def t be_word_spi_bytes
      field_reg_word [OF n(6,5,4)] field_reg_word [OF n(3,2,1)]
      bit_reg_word [OF n(6,5,4)] bit_reg_word [OF n(3,2,1)]
    using assms n by (auto simp: digit_of_field_digit)
qed

text \<open>
  Claim C4. For six slot values in 0..9 and the flag, loaded into any shield, \<^verbatim>\<open>show()\<close>
  transfers the bytes of two words, each most significant byte first (reassembling the
  four bytes in that order gives the word back). The first word has exactly the bits
  \<open>20 + d6\<close>, \<open>10 + d5\<close>, \<open>d4\<close> and, when the flag is set, 30 and 31; the second the same
  for \<open>d3\<close>, \<open>d2\<close>, \<open>d1\<close>. The words do not depend on the shield's earlier state, and
  reading the bytes back by inspection gives the six slot values and the flag.
\<close>

theorem C4_frame_roundtrip:
  assumes "0 \<le> d1 \<and> d1 \<le> 9" "0 \<le> d2 \<and> d2 \<le> 9" "0 \<le> d3 \<and> d3 \<le> 9"
    "0 \<le> d4 \<and> d4 \<le> 9" "0 \<le> d5 \<and> d5 \<le> 9" "0 \<le> d6 \<and> d6 \<le> 9"
  shows "\<exists>r1 r0.
           frame (load d1 d2 d3 d4 d5 d6 en s) = Inr (spi_bytes r1 @ spi_bytes r0)
           \<and> (\<forall>n. bit r1 n \<longleftrightarrow>
                 n = 20 + nat d6 \<or> n = 10 + nat d5 \<or> n = nat d4 \<or> (en \<and> (n = 30 \<or> n = 31)))
           \<and> (\<forall>n. bit r0 n \<longleftrightarrow>
                 n = 20 + nat d3 \<or> n = 10 + nat d2 \<or> n = nat d1 \<or> (en \<and> (n = 30 \<or> n = 31)))
           \<and> be_word (spi_bytes r1) = r1 \<and> be_word (spi_bytes r0) = r0
           \<and> inspect (spi_bytes r1 @ spi_bytes r0) =
               ([Some d1, Some d2, Some d3, Some d4, Some d5, Some d6], en, en)"
proof -
  define r1 where "r1 = reg_word en (2 ^ nat d6) (2 ^ nat d5) (2 ^ nat d4)"
  define r0 where "r0 = reg_word en (2 ^ nat d3) (2 ^ nat d2) (2 ^ nat d1)"
  have n: "nat d1 < 10" "nat d2 < 10" "nat d3 < 10" "nat d4 < 10" "nat d5 < 10" "nat d6 < 10"
    using assms by linarith+
  have "frame (load d1 d2 d3 d4 d5 d6 en s) = Inr (spi_bytes r1 @ spi_bytes r0)"
    unfolding frame_def registers_load [OF assms] r1_def r0_def
    by (simp add: bind_err_def)
  moreover have "\<forall>n. bit r1 n \<longleftrightarrow>
      n = 20 + nat d6 \<or> n = 10 + nat d5 \<or> n = nat d4 \<or> (en \<and> (n = 30 \<or> n = 31))"
    unfolding r1_def using bit_reg_word [OF n(6,5,4)] by blast
  moreover have "\<forall>n. bit r0 n \<longleftrightarrow>
      n = 20 + nat d3 \<or> n = 10 + nat d2 \<or> n = nat d1 \<or> (en \<and> (n = 30 \<or> n = 31))"
    unfolding r0_def using bit_reg_word [OF n(3,2,1)] by blast
  moreover have "inspect (spi_bytes r1 @ spi_bytes r0) =
      ([Some d1, Some d2, Some d3, Some d4, Some d5, Some d6], en, en)"
    unfolding r1_def r0_def using assms by (rule inspect_registers)
  ultimately show ?thesis
    using be_word_spi_bytes by blast
qed

theorem C4_frame_roundtrip_witness:
  "frame (load 1 2 3 4 5 6 True NixieTubeShield) = Inr [196, 0, 128, 16, 192, 128, 16, 2]
   \<and> inspect [196, 0, 128, 16, 192, 128, 16, 2] =
       ([Some 1, Some 2, Some 3, Some 4, Some 5, Some 6], True, True)"
proof -
  have ev: "frame (load 1 2 3 4 5 6 True NixieTubeShield) = Inr [196, 0, 128, 16, 192, 128, 16, 2]"
    by code_simp
  from C4_frame_roundtrip [of 1 2 3 4 5 6 True NixieTubeShield]
  obtain r1 r0 where
    "frame (load 1 2 3 4 5 6 True NixieTubeShield) = Inr (spi_bytes r1 @ spi_bytes r0)"
    "inspect (spi_bytes r1 @ spi_bytes r0) =
       ([Some 1, Some 2, Some 3, Some 4, Some 5, Some 6], True, True)"
    by auto
  with ev show ?thesis
    by simp
qed

subsection \<open>Decoding the reply\<close>

lemma or_plus_int:
  fixes a x :: int
  assumes "0 \<le> x" "x < 2 ^ n" "2 ^ n dvd a"
  shows "a OR x = a + x"
proof -
  from assms(3) obtain c where a: "a = push_bit n c"
    by (auto simp: push_bit_eq_mult dvd_def mult.commute)
  have x: "take_bit n x = x"
    using assms(1,2) by (rule take_bit_int_eq_self)
  have "a OR x = concat_bit n x c"
    unfolding a concat_bit_def x by (simp add: or.commute)
  also have "\<dots> = a + x"
    unfolding a concat_bit_eq x by simp
  finally show ?thesis .
qed

lemma uint_shifted_byte:
  fixes b :: byte
  assumes "n \<le> 24"
  shows "uint (push_bit n (ucast b :: u32)) = uint b * 2 ^ n"
proof -
  have lt: "uint b < 2 ^ 8"
    using uint_bounded [of b] by simp
  have "uint b * 2 ^ n < 2 ^ 8 * 2 ^ n"
    using lt by simp
  also have "\<dots> = 2 ^ (8 + n)"
    by (simp add: power_add)
  also have "\<dots> \<le> (2 :: int) ^ 32"
    using assms by (intro power_increasing) simp_all
  finally have "uint b * 2 ^ n < 2 ^ 32" .
  moreover have "0 \<le> uint b * 2 ^ n"
    by simp
  ultimately have t: "take_bit 32 (uint b * 2 ^ n) = uint b * 2 ^ n"
    by (intro take_bit_int_eq_self)
  have u: "uint (ucast b :: u32) = uint b"
    by (simp add: uint_up_ucast is_up)
  have "uint (push_bit n (ucast b :: u32)) = take_bit 32 (push_bit n (uint (ucast b :: u32)))"
    by (simp add: unsigned_push_bit_eq)
  also have "\<dots> = take_bit 32 (uint b * 2 ^ n)"
    unfolding u by (simp add: push_bit_eq_mult)
  finally show ?thesis
    using t by simp
qed

lemma uint_secsSince1900: "uint (secsSince1900 p) = seconds_1900 p"
proof -
  define x0 x1 x2 x3 where "x0 = uint (p ! 40)" and "x1 = uint (p ! 41)"
    and "x2 = uint (p ! 42)" and "x3 = uint (p ! 43)"
  have r: "0 \<le> x0" "x0 < 2 ^ 8" "0 \<le> x1" "x1 < 2 ^ 8" "0 \<le> x2" "x2 < 2 ^ 8" "0 \<le> x3" "x3 < 2 ^ 8"
    unfolding x0_def x1_def x2_def x3_def
    using uint_bounded [of "p ! 40"] uint_bounded [of "p ! 41"] uint_bounded [of "p ! 42"]
      uint_bounded [of "p ! 43"]
    by simp_all
  have u3: "uint (ucast (p ! 43) :: u32) = x3"
    by (simp add: uint_up_ucast is_up x3_def)
  have "uint (secsSince1900 p) = ((x0 * 2 ^ 24 OR x1 * 2 ^ 16) OR x2 * 2 ^ 8) OR x3"
    unfolding secsSince1900_def Let_def uint_or u3
    using uint_shifted_byte [of 24 "p ! 40"] uint_shifted_byte [of 16 "p ! 41"]
      uint_shifted_byte [of 8 "p ! 42"]
    by (simp add: x0_def x1_def x2_def)
  also have "x0 * 2 ^ 24 OR x1 * 2 ^ 16 = x0 * 2 ^ 24 + x1 * 2 ^ 16"
  proof (rule or_plus_int [where n = 24])
    show "0 \<le> x1 * 2 ^ 16" using r by simp
    have "x1 * 2 ^ 16 < 2 ^ 8 * 2 ^ 16" using r by simp
    then show "x1 * 2 ^ 16 < 2 ^ 24" by simp
    show "2 ^ 24 dvd x0 * 2 ^ 24" by simp
  qed
  also have "(x0 * 2 ^ 24 + x1 * 2 ^ 16) OR x2 * 2 ^ 8 = x0 * 2 ^ 24 + x1 * 2 ^ 16 + x2 * 2 ^ 8"
  proof (rule or_plus_int [where n = 16])
    show "0 \<le> x2 * 2 ^ 8" using r by simp
    have "x2 * 2 ^ 8 < 2 ^ 8 * 2 ^ 8" using r by simp
    then show "x2 * 2 ^ 8 < 2 ^ 16" by simp
    have "(2 :: int) ^ 16 dvd 2 ^ 24"
      by (intro le_imp_power_dvd) simp
    then have "2 ^ 16 dvd x0 * 2 ^ 24"
      by (rule dvd_mult)
    then show "2 ^ 16 dvd x0 * 2 ^ 24 + x1 * 2 ^ 16"
      by (rule dvd_add) simp
  qed
  also have "(x0 * 2 ^ 24 + x1 * 2 ^ 16 + x2 * 2 ^ 8) OR x3 =
      x0 * 2 ^ 24 + x1 * 2 ^ 16 + x2 * 2 ^ 8 + x3"
  proof (rule or_plus_int [where n = 8])
    show "0 \<le> x3" "x3 < 2 ^ 8" using r by simp_all
    have a: "(2 :: int) ^ 8 dvd 2 ^ 24"
      by (intro le_imp_power_dvd) simp
    have b: "(2 :: int) ^ 8 dvd 2 ^ 16"
      by (intro le_imp_power_dvd) simp
    show "2 ^ 8 dvd x0 * 2 ^ 24 + x1 * 2 ^ 16 + x2 * 2 ^ 8"
      by (intro dvd_add dvd_mult a b) simp
  qed
  finally show ?thesis
    unfolding x0_def x1_def x2_def x3_def seconds_1900_def .
qed


lemma seconds_1900_range: "0 \<le> seconds_1900 p" "seconds_1900 p < 2 ^ 32"
  using uint_bounded [of "secsSince1900 p"] by (simp_all add: uint_secsSince1900 [symmetric])

text \<open>
  Claim C5, amended. For a reply of 48 bytes the decoded time is the big-endian value of
  the bytes 40..43 minus 2208988800, computed in unsigned 32-bit arithmetic: the
  difference modulo \<open>2 ^ 32\<close>, which is the difference itself whenever the value is at
  least 2208988800.
\<close>

theorem C5_decode_reply:
  assumes "length p = NTP_PACKET_SIZE"
  shows "uint (priv_getTime (Some p)) = (seconds_1900 p - 2208988800) mod 2 ^ 32
       \<and> (2208988800 \<le> seconds_1900 p \<longrightarrow>
            uint (priv_getTime (Some p)) = seconds_1900 p - 2208988800)"
proof -
  have c: "uint (2208988800 :: u32) = 2208988800"
    by simp
  have g: "priv_getTime (Some p) = secsSince1900 p - 2208988800"
    using assms by (simp add: priv_getTime_def)
  have m: "uint (priv_getTime (Some p)) = (seconds_1900 p - 2208988800) mod 2 ^ 32"
    unfolding g uint_word_ariths c uint_secsSince1900 by simp
  have "uint (priv_getTime (Some p)) = seconds_1900 p - 2208988800"
    if "2208988800 \<le> seconds_1900 p"
  proof -
    have "0 \<le> seconds_1900 p - 2208988800"
      using that by simp
    moreover have "seconds_1900 p - 2208988800 < 2 ^ 32"
      using seconds_1900_range(2) [of p] by simp
    ultimately have "(seconds_1900 p - 2208988800) mod 2 ^ 32 = seconds_1900 p - 2208988800"
      by (rule mod_pos_pos_trivial)
    with m show ?thesis
      by simp
  qed
  with m show ?thesis
    by blast
qed

theorem C5_decode_reply_witness:
  "length ((replicate 48 (0 :: byte))[40 := 0xE4]) = NTP_PACKET_SIZE
   \<and> seconds_1900 ((replicate 48 0)[40 := 0xE4]) = 3825205248
   \<and> uint (priv_getTime (Some ((replicate 48 0)[40 := 0xE4]))) = 1616216448"
  using C5_decode_reply [of "(replicate 48 0)[40 := 0xE4]"]
  by (simp add: NTP_PACKET_SIZE_def seconds_1900_def)

text \<open>
  Claim C5 as stated, over the integers, fails when the value is below the constant: for
  a reply of 48 zero bytes the value is 0 and the decoded time is 2085978496, not
  \<open>0 - 2208988800\<close>.
\<close>

theorem C5_wraps_counterexample:
  "length (replicate 48 (0 :: byte)) = NTP_PACKET_SIZE
   \<and> seconds_1900 (replicate 48 0) = 0
   \<and> uint (priv_getTime (Some (replicate 48 0))) = 2085978496
   \<and> uint (priv_getTime (Some (replicate 48 0))) \<noteq> seconds_1900 (replicate 48 0) - 2208988800"
  by (simp add: NTP_PACKET_SIZE_def seconds_1900_def priv_getTime_def secsSince1900_def)

subsection \<open>getTime()\<close>

lemma no_reply_zero: "no_reply r \<Longrightarrow> priv_getTime r = 0"
  by (cases r) (simp_all add: no_reply_def priv_getTime_def)

lemma ntp_loop_fail:
  assumes "\<forall>j. i \<le> j \<and> j < RETRIES \<longrightarrow> priv_getTime (replies e j) = 0"
  shows "ntp_loop e i tr = FellThrough (tr @ concat (replicate (RETRIES - i) failed_round))"
  using assms
proof (induction "RETRIES - i" arbitrary: i tr)
  case 0
  then have "\<not> i < RETRIES"
    by simp
  with 0 show ?case
    by (subst ntp_loop.simps) simp
next
  case (Suc n)
  then have lt: "i < RETRIES"
    by simp
  have z: "priv_getTime (replies e i) = 0"
    using Suc.prems lt by simp
  have n: "n = RETRIES - (i + 1)"
    using Suc.hyps(2) by simp
  have "ntp_loop e (i + 1) (tr @ [UdpSend request_packet, Pause 1000] @ [Pause 300]) =
          FellThrough ((tr @ [UdpSend request_packet, Pause 1000] @ [Pause 300]) @
            concat (replicate (RETRIES - (i + 1)) failed_round))"
    using Suc.prems by (intro Suc.hyps(1) [OF n]) simp
  moreover have "RETRIES - i = Suc (RETRIES - (i + 1))"
    using lt by simp
  ultimately show ?case
    using lt z by (subst ntp_loop.simps) (simp add: Let_def failed_round_def)
qed

lemma ntp_loop_success:
  assumes "i + k < RETRIES"
    and "\<forall>j<k. priv_getTime (replies e (i + j)) = 0"
    and "priv_getTime (replies e (i + k)) \<noteq> 0"
  shows "ntp_loop e i tr =
           Returned (priv_getTime (replies e (i + k)))
             (tr @ concat (replicate k failed_round) @
               [UdpSend request_packet, Pause 1000,
                RtcWrite (setRTCDateTime (breakTime e (priv_getTime (replies e (i + k)))))])"
  using assms
proof (induction k arbitrary: i tr)
  case 0
  then show ?case
    by (subst ntp_loop.simps) (simp add: Let_def)
next
  case (Suc k)
  have lt: "i < RETRIES"
    using Suc.prems(1) by simp
  have z: "priv_getTime (replies e i) = 0"
    using Suc.prems(2) [rule_format, of 0] by simp
  have "ntp_loop e (i + 1) (tr @ [UdpSend request_packet, Pause 1000] @ [Pause 300]) =
          Returned (priv_getTime (replies e (i + 1 + k)))
            ((tr @ [UdpSend request_packet, Pause 1000] @ [Pause 300]) @
              concat (replicate k failed_round) @
              [UdpSend request_packet, Pause 1000,
               RtcWrite (setRTCDateTime (breakTime e (priv_getTime (replies e (i + 1 + k)))))])"
  proof (rule Suc.IH)
    show "i + 1 + k < RETRIES"
      using Suc.prems(1) by simp
    show "\<forall>j<k. priv_getTime (replies e (i + 1 + j)) = 0"
      using Suc.prems(2) [rule_format, of "Suc j" for j] by simp
    show "priv_getTime (replies e (i + 1 + k)) \<noteq> 0"
      using Suc.prems(3) by simp
  qed
  then show ?case
    using lt z by (subst ntp_loop.simps) (simp add: Let_def failed_round_def)
qed

lemma rtc_poll_timeout:
  assumes "k \<le> n" "Second m = prev"
    and "\<forall>j. k \<le> j \<and> j < n \<longrightarrow> Second (getRTCTime (rtc_regs e j)) = prev"
    and "\<forall>j. k \<le> j \<and> j < n \<longrightarrow> \<not> millis e j - start > 3000"
    and "millis e n - start > 3000"
  shows "rtc_poll e prev start k m tr =
           Some (False, getRTCTime (rtc_regs e n), tr @ replicate (Suc n - k) RtcRead)"
  using assms
proof (induction "n - k" arbitrary: k m tr)
  case 0
  then have "k = n"
    by simp
  with 0 show ?case
    by (subst rtc_poll.simps) (simp add: Let_def)
next
  case (Suc d)
  then have lt: "k < n"
    by simp
  have nt: "\<not> millis e k - start > 3000"
    using Suc.prems(4) lt by simp
  have d: "d = n - (k + 1)"
    using Suc.hyps(2) by simp
  have "rtc_poll e prev start (k + 1) (getRTCTime (rtc_regs e k)) (tr @ [RtcRead]) =
          Some (False, getRTCTime (rtc_regs e n),
            (tr @ [RtcRead]) @ replicate (Suc n - (k + 1)) RtcRead)"
  proof (rule Suc.hyps(1) [OF d])
    show "k + 1 \<le> n"
      using lt by simp
    show "Second (getRTCTime (rtc_regs e k)) = prev"
      using Suc.prems(3) lt by simp
    show "\<forall>j. k + 1 \<le> j \<and> j < n \<longrightarrow> Second (getRTCTime (rtc_regs e j)) = prev"
      using Suc.prems(3) by simp
    show "\<forall>j. k + 1 \<le> j \<and> j < n \<longrightarrow> \<not> millis e j - start > 3000"
      using Suc.prems(4) by simp
    show "millis e n - start > 3000"
      by (rule Suc.prems(5))
  qed
  moreover have "Suc n - k = Suc (Suc n - (k + 1))"
    using lt by simp
  ultimately show ?case
    using Suc.prems(2) nt
    by (subst rtc_poll.simps) (simp add: Let_def replicate_app_Cons_same)
qed

lemma count_append:
  "udp_queries (a @ b) = udp_queries a + udp_queries b"
  "rtc_writes (a @ b) = rtc_writes a @ rtc_writes b"
  "rtc_reads (a @ b) = rtc_reads a + rtc_reads b"
  by (simp_all add: udp_queries_def rtc_writes_def rtc_reads_def)

lemma count_failed_rounds:
  "udp_queries (concat (replicate k failed_round)) = k"
  "rtc_writes (concat (replicate k failed_round)) = []"
  "rtc_reads (concat (replicate k failed_round)) = 0"
  by (induction k) (simp_all add: count_append, simp_all add: udp_queries_def rtc_writes_def
      rtc_reads_def failed_round_def)

lemma count_reads:
  "udp_queries (replicate n RtcRead) = 0"
  "rtc_writes (replicate n RtcRead) = []"
  "rtc_reads (replicate n RtcRead) = n"
  by (induction n) (simp_all add: udp_queries_def rtc_writes_def rtc_reads_def)

lemma ntp_loop_queries:
  "(ntp_loop e i tr = Returned r t \<longrightarrow> udp_queries t \<le> udp_queries tr + (RETRIES - i))
   \<and> (ntp_loop e i tr = FellThrough t \<longrightarrow> udp_queries t \<le> udp_queries tr + (RETRIES - i))"
proof (induction e i tr rule: ntp_loop.induct)
  case (1 e i tr)
  show ?case
  proof (cases "i < RETRIES")
    case False
    then show ?thesis
      by (subst (1 2) ntp_loop.simps) simp
  next
    case True
    show ?thesis
    proof (cases "priv_getTime (replies e i) = 0")
      case z: True
      have q: "udp_queries ((tr @ [UdpSend request_packet, Pause 1000]) @ [Pause 300]) =
          Suc (udp_queries tr)"
        by (simp add: udp_queries_def)
      have s: "ntp_loop e i tr =
          ntp_loop e (i + 1) ((tr @ [UdpSend request_packet, Pause 1000]) @ [Pause 300])"
        using True z by (subst ntp_loop.simps) (simp add: Let_def)
      have nz: "\<not> priv_getTime (replies e i) \<noteq> 0"
        using z by simp
      show ?thesis
        unfolding s using 1 [OF True refl refl nz] True unfolding q by auto
    next
      case nz: False
      have q: "udp_queries ((tr @ [UdpSend request_packet, Pause 1000]) @
              [RtcWrite (setRTCDateTime (breakTime e (priv_getTime (replies e i))))]) =
            Suc (udp_queries tr)"
        by (simp add: udp_queries_def)
      have s: "ntp_loop e i tr =
          Returned (priv_getTime (replies e i))
            ((tr @ [UdpSend request_packet, Pause 1000]) @
              [RtcWrite (setRTCDateTime (breakTime e (priv_getTime (replies e i))))])"
        using True nz by (subst ntp_loop.simps) (simp add: Let_def)
      show ?thesis
        unfolding s using True q by auto
    qed
  qed
qed

lemma rtc_poll_counts:
  assumes "rtc_poll e prev start k m tr = Some y"
  shows "udp_queries (snd (snd y)) = udp_queries tr \<and> rtc_writes (snd (snd y)) = rtc_writes tr"
proof (induct rule: rtc_poll.raw_induct [OF _ assms])
  case (1 rtc_poll e prevSeconds start k m tr ea)
  show ?case
  proof (cases "prevSeconds = Second m")
    case False
    with 1(2) show ?thesis
      by auto
  next
    case True
    show ?thesis
    proof (cases "millis e k - start > 3000")
      case t: True
      with True 1(2) show ?thesis
        by (auto simp: Let_def udp_queries_def rtc_writes_def)
    next
      case f: False
      with True 1(2) have "rtc_poll e prevSeconds start (k + 1) (getRTCTime (rtc_regs e k))
          (tr @ [RtcRead]) = Some ea"
        by (simp add: Let_def)
      then have "udp_queries (snd (snd ea)) = udp_queries (tr @ [RtcRead])
          \<and> rtc_writes (snd (snd ea)) = rtc_writes (tr @ [RtcRead])"
        by (rule 1(1))
      then show ?thesis
        by (simp add: udp_queries_def rtc_writes_def)
    qed
  qed
qed


lemma getTime_queries_le:
  assumes "getTime e = Some r"
  shows "udp_queries (performed r) \<le> RETRIES"
proof (cases "ntp_loop e 0 []")
  case (Returned x t)
  then have "performed r = t"
    using assms by (auto simp: getTime_def)
  moreover have "udp_queries t \<le> udp_queries [] + (RETRIES - 0)"
    using ntp_loop_queries [of e 0 "[]" x t] Returned by simp
  ultimately show ?thesis
    by (simp add: udp_queries_def)
next
  case (FellThrough t)
  have t: "udp_queries t \<le> udp_queries [] + (RETRIES - 0)"
    using ntp_loop_queries [of e 0 "[]" undefined t] FellThrough by simp
  from assms FellThrough obtain y where
    y: "rtc_poll e (Second (getRTCTime (rtc_regs e 0))) (millis e 0) 1
          (getRTCTime (rtc_regs e 0)) (t @ [RtcRead]) = Some y"
    and r: "performed r = snd (snd y)"
    by (auto simp: getTime_def priv_getRTCTime_def Let_def split: option.splits)
  have "udp_queries (snd (snd y)) = udp_queries (t @ [RtcRead])"
    using rtc_poll_counts [OF y] by simp
  then show ?thesis
    using t r by (simp add: udp_queries_def)
qed

lemma getTime_fallback:
  assumes "\<forall>i<RETRIES. priv_getTime (replies e i) = 0"
  shows "ntp_loop e 0 [] = FellThrough (concat (replicate RETRIES failed_round))"
    and "getTime e = priv_getRTCTime e (concat (replicate RETRIES failed_round))"
proof -
  show l: "ntp_loop e 0 [] = FellThrough (concat (replicate RETRIES failed_round))"
    using ntp_loop_fail [of 0 e "[]"] assms by simp
  show "getTime e = priv_getRTCTime e (concat (replicate RETRIES failed_round))"
    by (simp add: getTime_def l)
qed

lemma priv_getRTCTime_stuck:
  assumes "1 \<le> n"
    and "\<forall>k<n. Second (getRTCTime (rtc_regs e k)) = Second (getRTCTime (rtc_regs e 0))"
    and "\<forall>k. 1 \<le> k \<and> k < n \<longrightarrow> \<not> millis e k - millis e 0 > 3000"
    and "millis e n - millis e 0 > 3000"
  shows "priv_getRTCTime e tr = Some \<lparr>ret = 0, performed = tr @ replicate (Suc n) RtcRead\<rparr>"
proof -
  have "rtc_poll e (Second (getRTCTime (rtc_regs e 0))) (millis e 0) 1
          (getRTCTime (rtc_regs e 0)) (tr @ [RtcRead]) =
        Some (False, getRTCTime (rtc_regs e n), (tr @ [RtcRead]) @ replicate (Suc n - 1) RtcRead)"
  proof (rule rtc_poll_timeout)
    show "1 \<le> n"
      by (rule assms(1))
    show "Second (getRTCTime (rtc_regs e 0)) = Second (getRTCTime (rtc_regs e 0))"
      by (rule refl)
    show "\<forall>j. 1 \<le> j \<and> j < n \<longrightarrow>
        Second (getRTCTime (rtc_regs e j)) = Second (getRTCTime (rtc_regs e 0))"
      using assms(2) by blast
    show "\<forall>j. 1 \<le> j \<and> j < n \<longrightarrow> \<not> millis e j - millis e 0 > 3000"
      by (rule assms(3))
    show "millis e n - millis e 0 > 3000"
      by (rule assms(4))
  qed
  then show ?thesis
    by (simp add: priv_getRTCTime_def Let_def)
qed

text \<open>
  Claim C3. A reply that is absent or has the wrong size makes \<^verbatim>\<open>_getTime\<close> return 0.
  Whatever the surroundings, a call of \<^verbatim>\<open>getTime\<close> that returns has sent at most
  \<^verbatim>\<open>RETRIES\<close> = 20 requests. When all 20 attempts return 0, the result is that of
  \<^verbatim>\<open>_getRTCTime\<close>, entered after the 20 failed rounds. When moreover the seconds of the
  DS1307 read the same until \<^verbatim>\<open>millis()\<close> is first seen more than 3000 after the start
  (at the \<open>n\<close>-th reading), the call returns 0 after \<open>n + 1\<close> reads, without having written
  the DS1307; and the caller, as the spec describes it, keeps the prior WallClock.
\<close>

theorem C3_fallback_no_time:
  "(\<forall>r. no_reply r \<longrightarrow> priv_getTime r = 0)
   \<and> (\<forall>e' r'. getTime e' = Some r' \<longrightarrow> udp_queries (performed r') \<le> RETRIES)
   \<and> RETRIES = 20
   \<and> ((\<forall>i<RETRIES. no_reply (replies e i)) \<longrightarrow>
        getTime e = priv_getRTCTime e (concat (replicate RETRIES failed_round)))
   \<and> ((\<forall>i<RETRIES. no_reply (replies e i)) \<and> 1 \<le> n
        \<and> (\<forall>k<n. Second (getRTCTime (rtc_regs e k)) = Second (getRTCTime (rtc_regs e 0)))
        \<and> (\<forall>k. 1 \<le> k \<and> k < n \<longrightarrow> \<not> millis e k - millis e 0 > 3000)
        \<and> millis e n - millis e 0 > 3000 \<longrightarrow>
        getTime e =
          Some \<lparr>ret = 0,
                performed = concat (replicate RETRIES failed_round) @ replicate (Suc n) RtcRead\<rparr>
        \<and> sync_WallClock prior 0 = prior)"
proof -
  have a: "\<forall>r. no_reply r \<longrightarrow> priv_getTime r = 0"
    by (simp add: no_reply_zero)
  have b: "\<forall>e' r'. getTime e' = Some r' \<longrightarrow> udp_queries (performed r') \<le> RETRIES"
    by (simp add: getTime_queries_le)
  have c: "getTime e = priv_getRTCTime e (concat (replicate RETRIES failed_round))"
    if "\<forall>i<RETRIES. no_reply (replies e i)"
    using that by (intro getTime_fallback(2)) (simp add: no_reply_zero)
  have d: "getTime e =
          Some \<lparr>ret = 0,
                performed = concat (replicate RETRIES failed_round) @ replicate (Suc n) RtcRead\<rparr>"
    if "\<forall>i<RETRIES. no_reply (replies e i)" "1 \<le> n"
      "\<forall>k<n. Second (getRTCTime (rtc_regs e k)) = Second (getRTCTime (rtc_regs e 0))"
      "\<forall>k. 1 \<le> k \<and> k < n \<longrightarrow> \<not> millis e k - millis e 0 > 3000"
      "millis e n - millis e 0 > 3000"
    unfolding c [OF that(1)] using that(2-5) by (rule priv_getRTCTime_stuck)
  have s: "sync_WallClock prior 0 = prior"
    by (simp add: sync_WallClock_def)
  have r: "RETRIES = 20"
    by (simp add: RETRIES_def)
  from a b c d s r show ?thesis
    by blast
qed

theorem C3_fallback_no_time_witness:
  "getTime \<lparr>replies = (\<lambda>i. None), rtc_regs = (\<lambda>k. [0x10, 0, 0, 0, 0, 0, 0]),
            millis = (\<lambda>k. if k < 4 then 0 else 5000),
            breakTime = (\<lambda>t. \<lparr>Second = 0, Minute = 0, Hour = 0, Wday = 0, Day = 0, Month = 0,
              Year = 0\<rparr>),
            makeTime = (\<lambda>m. 77)\<rparr> =
     Some \<lparr>ret = 0,
           performed = concat (replicate RETRIES failed_round) @ replicate (Suc 4) RtcRead\<rparr>
   \<and> sync_WallClock 1700000000 0 = 1700000000"
  using C3_fallback_no_time
    [of "\<lparr>replies = (\<lambda>i. None), rtc_regs = (\<lambda>k. [0x10, 0, 0, 0, 0, 0, 0]),
            millis = (\<lambda>k. if k < 4 then 0 else 5000),
            breakTime = (\<lambda>t. \<lparr>Second = 0, Minute = 0, Hour = 0, Wday = 0, Day = 0, Month = 0,
              Year = 0\<rparr>),
            makeTime = (\<lambda>m. 77)\<rparr>" 4 1700000000]
  by (auto simp: no_reply_def)

lemma rtc_readback:
  assumes "fits_rtc m"
  shows "getRTCTime (take 7 (tl (setRTCDateTime m))) = m"
proof -
  have f: "Second m \<le> 99" "Minute m \<le> 99" "Hour m \<le> 99" "Wday m \<le> 99" "Day m \<le> 99"
    "Month m \<le> 99" "Year m \<le> 99"
    using assms by (simp_all add: fits_rtc_def word_le_def)
  have h: "Hour m \<le> 23"
    using assms by (simp add: fits_rtc_def)
  have "getRTCTime (take 7 (tl (setRTCDateTime m))) =
      \<lparr>Second = Second m, Minute = Minute m, Hour = Hour m, Wday = Wday m, Day = Day m,
       Month = Month m, Year = Year m\<rparr>"
    unfolding getRTCTime_def setRTCDateTime_def wire_read_def
    by (simp add: bcdToDec_decToBcd [OF f(1)] bcdToDec_decToBcd [OF f(2)]
        bcdToDec_decToBcd [OF f(3)] bcdToDec_decToBcd [OF f(4)] bcdToDec_decToBcd [OF f(5)]
        bcdToDec_decToBcd [OF f(6)] bcdToDec_decToBcd [OF f(7)] decToBcd_hour_mask [OF h])
  then show ?thesis
    by simp
qed

text \<open>
  Claim C8. When the attempt \<open>k\<close> (counted from 0, below \<^verbatim>\<open>RETRIES\<close>) is the first whose
  result is not 0, \<^verbatim>\<open>getTime\<close> returns that result after \<open>k\<close> failed rounds and one
  further request, with the one \<^verbatim>\<open>setRTCDateTime\<close> transmission of the broken-down result
  as its last action: \<open>k + 1\<close> requests in all, none after the success, and no write before
  it. When all attempts return 0 the loop is left after \<^verbatim>\<open>RETRIES\<close> failed rounds, which
  contain no write, and a call that returns has written nothing. The transmission is the
  register address 0, the seven fields second, minute, hour, weekday, day, month and
  year in BCD, and a final 0; for a time whose fields are in range, \<^verbatim>\<open>getRTCTime\<close> on the
  seven data bytes gives the broken-down time back.
\<close>

theorem C8_success_writes_rtc_once:
  "(k < RETRIES \<and> (\<forall>j<k. priv_getTime (replies e j) = 0) \<and> priv_getTime (replies e k) \<noteq> 0 \<longrightarrow>
      getTime e =
        Some \<lparr>ret = priv_getTime (replies e k),
              performed = concat (replicate k failed_round) @
                [UdpSend request_packet, Pause 1000,
                 RtcWrite (setRTCDateTime (breakTime e (priv_getTime (replies e k))))]\<rparr>
      \<and> udp_queries (concat (replicate k failed_round) @
            [UdpSend request_packet, Pause 1000,
             RtcWrite (setRTCDateTime (breakTime e (priv_getTime (replies e k))))]) = Suc k
      \<and> rtc_writes (concat (replicate k failed_round) @
            [UdpSend request_packet, Pause 1000,
             RtcWrite (setRTCDateTime (breakTime e (priv_getTime (replies e k))))]) =
          [setRTCDateTime (breakTime e (priv_getTime (replies e k)))])
   \<and> ((\<forall>j<RETRIES. priv_getTime (replies e j) = 0) \<longrightarrow>
        ntp_loop e 0 [] = FellThrough (concat (replicate RETRIES failed_round))
        \<and> rtc_writes (concat (replicate RETRIES failed_round)) = []
        \<and> (\<forall>r. getTime e = Some r \<longrightarrow> rtc_writes (performed r) = []))
   \<and> (\<forall>m. setRTCDateTime m =
          [0x00, decToBcd (Second m), decToBcd (Minute m), decToBcd (Hour m),
           decToBcd (Wday m), decToBcd (Day m), decToBcd (Month m), decToBcd (Year m), 0x00])
   \<and> (\<forall>m. fits_rtc m \<longrightarrow> getRTCTime (take 7 (tl (setRTCDateTime m))) = m)"
proof -
  have w: "\<forall>m. setRTCDateTime m =
          [0x00, decToBcd (Second m), decToBcd (Minute m), decToBcd (Hour m),
           decToBcd (Wday m), decToBcd (Day m), decToBcd (Month m), decToBcd (Year m), 0x00]"
    by (simp add: setRTCDateTime_def)
  have rb: "\<forall>m. fits_rtc m \<longrightarrow> getRTCTime (take 7 (tl (setRTCDateTime m))) = m"
    by (simp add: rtc_readback)
  have a: "getTime e =
        Some \<lparr>ret = priv_getTime (replies e k),
              performed = concat (replicate k failed_round) @
                [UdpSend request_packet, Pause 1000,
                 RtcWrite (setRTCDateTime (breakTime e (priv_getTime (replies e k))))]\<rparr>"
    if "k < RETRIES" "\<forall>j<k. priv_getTime (replies e j) = 0" "priv_getTime (replies e k) \<noteq> 0"
    using ntp_loop_success [of 0 k e "[]"] that by (simp add: getTime_def)
  have b: "udp_queries (concat (replicate k failed_round) @
            [UdpSend request_packet, Pause 1000,
             RtcWrite (setRTCDateTime (breakTime e (priv_getTime (replies e k))))]) = Suc k"
    by (simp add: count_append count_failed_rounds) (simp add: udp_queries_def)
  have c: "rtc_writes (concat (replicate k failed_round) @
            [UdpSend request_packet, Pause 1000,
             RtcWrite (setRTCDateTime (breakTime e (priv_getTime (replies e k))))]) =
          [setRTCDateTime (breakTime e (priv_getTime (replies e k)))]"
    by (simp add: count_append count_failed_rounds) (simp add: rtc_writes_def)
  have d: "rtc_writes (performed r) = []"
    if z: "\<forall>j<RETRIES. priv_getTime (replies e j) = 0" and g: "getTime e = Some r" for r
  proof -
    from g obtain y where
      y: "rtc_poll e (Second (getRTCTime (rtc_regs e 0))) (millis e 0) 1
            (getRTCTime (rtc_regs e 0)) (concat (replicate RETRIES failed_round) @ [RtcRead]) =
          Some y"
      and r: "performed r = snd (snd y)"
      unfolding getTime_fallback(2) [OF z]
      by (auto simp: priv_getRTCTime_def Let_def split: option.splits)
    have "rtc_writes (snd (snd y)) =
        rtc_writes (concat (replicate RETRIES failed_round) @ [RtcRead])"
      using rtc_poll_counts [OF y] by simp
    then show ?thesis
      using r by (simp add: count_append count_failed_rounds) (simp add: rtc_writes_def)
  qed
  have first: "k < RETRIES \<and> (\<forall>j<k. priv_getTime (replies e j) = 0)
      \<and> priv_getTime (replies e k) \<noteq> 0 \<longrightarrow>
      getTime e =
        Some \<lparr>ret = priv_getTime (replies e k),
              performed = concat (replicate k failed_round) @
                [UdpSend request_packet, Pause 1000,
                 RtcWrite (setRTCDateTime (breakTime e (priv_getTime (replies e k))))]\<rparr>
      \<and> udp_queries (concat (replicate k failed_round) @
            [UdpSend request_packet, Pause 1000,
             RtcWrite (setRTCDateTime (breakTime e (priv_getTime (replies e k))))]) = Suc k
      \<and> rtc_writes (concat (replicate k failed_round) @
            [UdpSend request_packet, Pause 1000,
             RtcWrite (setRTCDateTime (breakTime e (priv_getTime (replies e k))))]) =
          [setRTCDateTime (breakTime e (priv_getTime (replies e k)))]"
    using a b c by blast
  have second: "(\<forall>j<RETRIES. priv_getTime (replies e j) = 0) \<longrightarrow>
        ntp_loop e 0 [] = FellThrough (concat (replicate RETRIES failed_round))
        \<and> rtc_writes (concat (replicate RETRIES failed_round)) = []
        \<and> (\<forall>r. getTime e = Some r \<longrightarrow> rtc_writes (performed r) = [])"
    using d getTime_fallback(1) [of e] count_failed_rounds(2) [of RETRIES] by blast
  from first second w rb show ?thesis
    by (intro conjI)
qed

theorem C8_success_writes_rtc_once_witness:
  "getTime \<lparr>replies = (\<lambda>i. if i = 3 then Some ((replicate 48 0)[40 := 0xE4]) else None),
            rtc_regs = (\<lambda>k. [0x10, 0, 0, 0, 0, 0, 0]),
            millis = (\<lambda>k. if k < 4 then 0 else 5000),
            breakTime = (\<lambda>t. \<lparr>Second = 48, Minute = 0, Hour = 5, Wday = 7, Day = 20, Month = 3,
              Year = 51\<rparr>),
            makeTime = (\<lambda>m. 77)\<rparr> =
     Some \<lparr>ret = 1616216448,
           performed = concat (replicate 3 failed_round) @
             [UdpSend request_packet, Pause 1000,
              RtcWrite [0x00, 0x48, 0x00, 0x05, 0x07, 0x20, 0x03, 0x51, 0x00]]\<rparr>
   \<and> getRTCTime [0x48, 0x00, 0x05, 0x07, 0x20, 0x03, 0x51] = \<lparr>Second = 48, Minute = 0, Hour = 5, Wday = 7, Day = 20, Month = 3, Year = 51\<rparr>
   \<and> ntp_loop \<lparr>replies = (\<lambda>i. None), rtc_regs = (\<lambda>k. [0x10, 0, 0, 0, 0, 0, 0]),
            millis = (\<lambda>k. if k < 4 then 0 else 5000),
            breakTime = (\<lambda>t. \<lparr>Second = 48, Minute = 0, Hour = 5, Wday = 7, Day = 20, Month = 3,
              Year = 51\<rparr>),
            makeTime = (\<lambda>m. 77)\<rparr> 0 [] = FellThrough (concat (replicate RETRIES failed_round))
   \<and> rtc_writes (concat (replicate RETRIES failed_round)) = []"
proof -
  note t = C8_success_writes_rtc_once
    [of 3 "\<lparr>replies = (\<lambda>i. if i = 3 then Some ((replicate 48 0)[40 := 0xE4]) else None),
            rtc_regs = (\<lambda>k. [0x10, 0, 0, 0, 0, 0, 0]),
            millis = (\<lambda>k. if k < 4 then 0 else 5000),
            breakTime = (\<lambda>t. \<lparr>Second = 48, Minute = 0, Hour = 5, Wday = 7, Day = 20, Month = 3,
              Year = 51\<rparr>),
            makeTime = (\<lambda>m. 77)\<rparr>"]
  note u = C8_success_writes_rtc_once
    [of 3 "\<lparr>replies = (\<lambda>i. None), rtc_regs = (\<lambda>k. [0x10, 0, 0, 0, 0, 0, 0]),
            millis = (\<lambda>k. if k < 4 then 0 else 5000),
            breakTime = (\<lambda>t. \<lparr>Second = 48, Minute = 0, Hour = 5, Wday = 7, Day = 20, Month = 3,
              Year = 51\<rparr>),
            makeTime = (\<lambda>m. 77)\<rparr>"]
  have "fits_rtc \<lparr>Second = 48, Minute = 0, Hour = 5, Wday = 7, Day = 20, Month = 3, Year = 51\<rparr>"
    by (simp add: fits_rtc_def)
  with t have "getRTCTime (take 7 (tl (setRTCDateTime \<lparr>Second = 48, Minute = 0, Hour = 5, Wday = 7, Day = 20, Month = 3, Year = 51\<rparr>))) = \<lparr>Second = 48, Minute = 0, Hour = 5, Wday = 7, Day = 20, Month = 3, Year = 51\<rparr>"
    by blast
  then have rb: "getRTCTime [0x48, 0x00, 0x05, 0x07, 0x20, 0x03, 0x51] = \<lparr>Second = 48, Minute = 0, Hour = 5, Wday = 7, Day = 20, Month = 3, Year = 51\<rparr>"
    by (simp add: setRTCDateTime_def decToBcd_def)
  from t u rb show ?thesis
    by (simp add: priv_getTime_def secsSince1900_def NTP_PACKET_SIZE_def RETRIES_def
        setRTCDateTime_def decToBcd_def)
qed

end
